theory Spec2Isabelle
  imports Complex_Main "HOL-Library.Word"
begin

section \<open>QENEX Coin: the ledger core of \<^verbatim>\<open>kernel/cryptocurrency/qenex_coin.c\<close>\<close>

text \<open>
  Conventions of the embedding.
  \<^item> The ledger (chain, hashes, mining engine, balances, transfers) is modelled with a C
    \<^verbatim>\<open>double\<close> as a \<^typ>\<open>real\<close>: comparisons and arithmetic are exact; rounding, infinities
    and NaN are not represented there. That model speaks for runs whose claims carry
    finite numbers, up to rounding.
  \<^item> The verification gate and the reward policy are also given in binary64 arithmetic
    (section \<open>Binary64 arithmetic\<close>): there NaN and rounding decide what the code does.
  \<^item> \<^verbatim>\<open>uint32_t\<close> and \<^verbatim>\<open>uint64_t\<close> are \<^typ>\<open>32 word\<close> and \<^typ>\<open>64 word\<close>.
  \<^item> A NUL-terminated \<^verbatim>\<open>char\<close> buffer is a \<^typ>\<open>string\<close> holding the characters before
    the terminator; \<^verbatim>\<open>strcmp(a, b) == 0\<close> is equality of the two strings.
  \<^item> The doubly linked chain \<^verbatim>\<open>blockchain_head .. blockchain_tail\<close> is the list of its
    blocks from head to tail; \<^verbatim>\<open>next\<close> and \<^verbatim>\<open>prev\<close> are the neighbours in the list.
  \<^item> Buffer sizes are not represented, with one exception written out in \<open>mine_block\<close>
    (the claimant buffer): every other \<^verbatim>\<open>strcpy\<close> and \<^verbatim>\<open>sprintf\<close> is taken to fit its
    destination.
  \<^item> Printing and the threads started by \<^verbatim>\<open>qxc_init\<close> are left out; the clock
    \<^verbatim>\<open>time(NULL)\<close> is an argument \<open>now\<close>.
  \<^item> \<^verbatim>\<open>mining_type_t\<close> is a C enum, that is an \<^verbatim>\<open>int\<close>; a block allocated by
    \<^verbatim>\<open>calloc\<close> carries the value 0, which is none of the eight enumerators.
\<close>

subsection \<open>Constants of \<^verbatim>\<open>qenex_coin.h\<close>\<close>

definition DIFFICULTY_ADJUSTMENT_INTERVAL :: nat where
  "DIFFICULTY_ADJUSTMENT_INTERVAL = 100"

definition INITIAL_REWARD :: real where
  "INITIAL_REWARD = 100"

definition HALVING_INTERVAL :: "32 word" where
  "HALVING_INTERVAL = 210000"

definition MAX_SUPPLY :: real where
  "MAX_SUPPLY = 21000000"

definition MINING_TYPE_MODEL_ACCURACY :: int where "MINING_TYPE_MODEL_ACCURACY = 1"
definition MINING_TYPE_TRAINING_SPEED :: int where "MINING_TYPE_TRAINING_SPEED = 2"
definition MINING_TYPE_RESOURCE_OPTIMIZE :: int where "MINING_TYPE_RESOURCE_OPTIMIZE = 3"
definition MINING_TYPE_ALGORITHM_IMPROVE :: int where "MINING_TYPE_ALGORITHM_IMPROVE = 4"
definition MINING_TYPE_KERNEL_ENHANCE :: int where "MINING_TYPE_KERNEL_ENHANCE = 5"
definition MINING_TYPE_QUANTUM_INTEGRATE :: int where "MINING_TYPE_QUANTUM_INTEGRATE = 6"
definition MINING_TYPE_SECURITY_PATCH :: int where "MINING_TYPE_SECURITY_PATCH = 7"
definition MINING_TYPE_PERFORMANCE_BOOST :: int where "MINING_TYPE_PERFORMANCE_BOOST = 8"

lemmas mining_type_defs =
  MINING_TYPE_MODEL_ACCURACY_def MINING_TYPE_TRAINING_SPEED_def
  MINING_TYPE_RESOURCE_OPTIMIZE_def MINING_TYPE_ALGORITHM_IMPROVE_def
  MINING_TYPE_KERNEL_ENHANCE_def MINING_TYPE_QUANTUM_INTEGRATE_def
  MINING_TYPE_SECURITY_PATCH_def MINING_TYPE_PERFORMANCE_BOOST_def

subsection \<open>Data model\<close>

record transaction =
  tx_id :: string
  sender :: string
  receiver :: string
  amount :: real
  fee :: real
  tx_timestamp :: "64 word"
  signature :: string
  contribution_type :: int
  contribution_score :: real
  ai_model_ref :: string

text \<open>
  \<^verbatim>\<open>block_t\<close>. The array \<^verbatim>\<open>transactions\<close> with its length \<^verbatim>\<open>tx_count\<close> is the list
  \<open>transactions\<close>; the pointers \<^verbatim>\<open>next\<close> and \<^verbatim>\<open>prev\<close> are the position in the chain.
\<close>

record block =
  index :: "32 word"
  timestamp :: "64 word"
  prev_hash :: string
  hash :: string
  nonce :: "32 word"
  difficulty :: "32 word"
  mining_type :: int
  improvement_metric :: real
  developer_id :: string
  model_hash :: string
  reward_amount :: real
  transactions :: "transaction list"

record wallet =
  address :: string
  public_key :: string
  private_key :: string
  balance :: real
  total_contributions :: "64 word"
  total_mined :: real
  accuracy_improvements :: real
  speed_improvements :: real
  models_improved :: "32 word"
  algorithms_created :: "32 word"

record ai_verification =
  model_id :: string
  baseline_accuracy :: real
  improved_accuracy :: real
  improvement_percentage :: real
  test_samples :: "32 word"
  validation_loss :: real
  f1_score :: real
  precision :: real
  recall :: real
  verifying_nodes :: "32 word"
  confirmations :: "32 word"
  consensus_score :: real

text \<open>
  The global state of \<^verbatim>\<open>qenex_coin.c\<close>: the chain, \<^verbatim>\<open>blockchain_height\<close> and
  \<^verbatim>\<open>total_supply\<close>. Before \<^verbatim>\<open>qxc_init\<close> the chain is empty (both pointers are NULL).
\<close>

record qxc_state =
  chain :: "block list"
  blockchain_height :: "32 word"
  total_supply :: real

subsection \<open>Improvement verification gate\<close>

text \<open>
  The four tests in the order of the code, on claims whose fields are numbers. The gate
  on doubles, where a field can be NaN, is \<open>verify_ai_improvement_ieee\<close> below.
\<close>

definition verify_ai_improvement :: "ai_verification \<Rightarrow> int" where
  "verify_ai_improvement verification =
     (if improvement_percentage verification < 1.0 then 0
      else if confirmations verification < 3 then 0
      else if consensus_score verification < 0.75 then 0
      else if f1_score verification < 0.5 then 0
      else 1)"

subsection \<open>Reward policy\<close>

text \<open>
  The policy with exact arithmetic; the mining engine of this part uses it. The policy
  with the rounding of doubles is \<open>calculate_mining_reward_ieee\<close> below.
\<close>

text \<open>The halving loop: \<^verbatim>\<open>for (i = 0; i < halvings; i++) base_reward /= 2.0;\<close>\<close>

fun halving_loop :: "nat \<Rightarrow> real \<Rightarrow> real" where
  "halving_loop 0 base_reward = base_reward"
| "halving_loop (Suc n) base_reward = halving_loop n (base_reward / 2.0)"

text \<open>The \<^verbatim>\<open>switch\<close> has no \<^verbatim>\<open>default\<close>: any other value keeps the initial 1.0.\<close>

definition type_multiplier :: "int \<Rightarrow> real" where
  "type_multiplier t =
     (if t = MINING_TYPE_QUANTUM_INTEGRATE then 3.0
      else if t = MINING_TYPE_ALGORITHM_IMPROVE then 2.5
      else if t = MINING_TYPE_MODEL_ACCURACY then 2.0
      else if t = MINING_TYPE_KERNEL_ENHANCE then 1.8
      else if t = MINING_TYPE_TRAINING_SPEED then 1.5
      else if t = MINING_TYPE_SECURITY_PATCH then 1.5
      else if t = MINING_TYPE_PERFORMANCE_BOOST then 1.3
      else if t = MINING_TYPE_RESOURCE_OPTIMIZE then 1.2
      else 1.0)"

definition calculate_mining_reward :: "qxc_state \<Rightarrow> int \<Rightarrow> real \<Rightarrow> real" where
  "calculate_mining_reward s t improvement =
     (let halvings = blockchain_height s div HALVING_INTERVAL;
          base_reward = halving_loop (unat halvings) INITIAL_REWARD;
          improvement_multiplier = 1.0 + log 10 (1.0 + improvement / 10.0);
          final_reward = base_reward * type_multiplier t * improvement_multiplier
      in if total_supply s + final_reward > MAX_SUPPLY
         then MAX_SUPPLY - total_supply s
         else final_reward)"

subsection \<open>Block hash\<close>

text \<open>
  \<^verbatim>\<open>calculate_block_hash\<close> prints index, timestamp, previous hash, nonce, improvement,
  claimant and reward into a buffer, digests the buffer with OpenSSL's \<^verbatim>\<open>SHA256\<close> and
  renders the 32 digest bytes as 64 lower-case hexadecimal digits. The digest of the
  printed buffer comes from outside the repository: it is the parameter \<open>digest\<close>, a
  function of exactly the seven printed fields. The rendering loop is modelled as written.
\<close>

type_synonym block_digest =
  "32 word \<Rightarrow> 64 word \<Rightarrow> string \<Rightarrow> 32 word \<Rightarrow> real \<Rightarrow> string \<Rightarrow> real \<Rightarrow> 256 word"

definition hex_digit :: "nat \<Rightarrow> char" where
  "hex_digit n = ''0123456789abcdef'' ! (n mod 16)"

text \<open>\<^verbatim>\<open>sprintf(.., "%02x", hash[i])\<close>\<close>

definition byte_hex :: "8 word \<Rightarrow> string" where
  "byte_hex b = [hex_digit (unat b div 16), hex_digit (unat b mod 16)]"

definition digest_bytes :: "256 word \<Rightarrow> 8 word list" where
  "digest_bytes w = map (\<lambda>i. ucast (drop_bit (8 * (31 - i)) w)) [0..<32]"

definition hex_digest :: "256 word \<Rightarrow> string" where
  "hex_digest w = concat (map byte_hex (digest_bytes w))"

definition calculate_block_hash :: "block_digest \<Rightarrow> block \<Rightarrow> block" where
  "calculate_block_hash digest b =
     b\<lparr>hash := hex_digest (digest (index b) (timestamp b) (prev_hash b) (nonce b)
                   (improvement_metric b) (developer_id b) (reward_amount b))\<rparr>"

subsection \<open>Difficulty\<close>

text \<open>
  The walk \<^verbatim>\<open>for (i = 0; i < INTERVAL - 1 && prev_adjustment->prev; i++)\<close>: the current
  block and the blocks before it, nearest first.
\<close>

fun walk_prev :: "nat \<Rightarrow> block \<Rightarrow> block list \<Rightarrow> block" where
  "walk_prev 0 b before = b"
| "walk_prev (Suc n) b [] = b"
| "walk_prev (Suc n) b (p # before) = walk_prev n p before"

text \<open>Called with a non-empty chain only (\<^verbatim>\<open>blockchain_tail\<close> is dereferenced).\<close>

definition calculate_difficulty :: "qxc_state \<Rightarrow> 32 word" where
  "calculate_difficulty s =
     (let blockchain_tail = last (chain s) in
      if unat (blockchain_height s) mod DIFFICULTY_ADJUSTMENT_INTERVAL \<noteq> 0
      then difficulty blockchain_tail
      else
        let prev_adjustment =
              walk_prev (DIFFICULTY_ADJUSTMENT_INTERVAL - 1) blockchain_tail
                (tl (rev (chain s)));
            time_diff = timestamp blockchain_tail - timestamp prev_adjustment;
            expected_time = (6000 :: 64 word);
            new_difficulty = difficulty blockchain_tail
        in if time_diff < expected_time div 2 then new_difficulty + 1
           else if time_diff > expected_time * 2
           then (if new_difficulty > 1 then new_difficulty - 1 else new_difficulty)
           else new_difficulty)"

subsection \<open>Mining engine\<close>

text \<open>
  \<^verbatim>\<open>memcmp(s1, s2, n)\<close> on two buffers given as lists of bytes. The lists hold at least
  \<open>n\<close> bytes wherever the model calls it; past the end of a list it reports equality.
\<close>

fun memcmp :: "string \<Rightarrow> string \<Rightarrow> nat \<Rightarrow> int" where
  "memcmp (c1 # s1) (c2 # s2) (Suc n) =
     (if c1 = c2 then memcmp s1 s2 n
      else if (of_char c1 :: nat) < of_char c2 then - 1 else 1)"
| "memcmp s1 s2 n = 0"

text \<open>
  The proof-of-work search \<^verbatim>\<open>while (1) { .. nonce++; }\<close>. The nonce is a
  \<^verbatim>\<open>uint32_t\<close> and wraps around; the loop has no bound, so the search is a partial
  function and \<open>None\<close> is the search that never ends.
\<close>

partial_function (option) find_nonce :: "block_digest \<Rightarrow> block \<Rightarrow> 32 word \<Rightarrow> block option" where
  "find_nonce digest new_block n =
     (let b = calculate_block_hash digest (new_block\<lparr>nonce := n\<rparr>) in
      if memcmp (hash b) (replicate (unat (difficulty b)) CHR ''0'') (unat (difficulty b)) \<le> 0
      then Some b
      else find_nonce digest new_block (n + 1))"

text \<open>
  What a call of \<^verbatim>\<open>mine_block\<close> does when it returns: \<open>Rejected\<close> is the NULL result
  of a failed verification, \<open>Mined\<close> carries the new global state, the updated miner
  wallet and the block returned. \<open>NullTail\<close> (no genesis block yet, the tail pointer is
  NULL) and \<open>TargetOverflow\<close> (a difficulty that does not fit \<^verbatim>\<open>char target[65]\<close>) are
  the two places where the C code has no defined behaviour.

  The claimant buffer is \<^verbatim>\<open>char developer_id[64]\<close>, directly followed in the block by
  \<^verbatim>\<open>char model_hash[65]\<close>. An address of 64 characters (every address that
  \<^verbatim>\<open>create_wallet\<close> makes) fills the buffer, its terminator lands on the first byte
  of \<^verbatim>\<open>model_hash\<close> and is overwritten when the model identifier is copied there: the
  claimant then reads as the address followed by the model identifier.
\<close>

datatype mine_result =
    Rejected
  | NullTail
  | TargetOverflow
  | Mined qxc_state wallet block

definition mine_block ::
  "block_digest \<Rightarrow> 64 word \<Rightarrow> qxc_state \<Rightarrow> wallet \<Rightarrow> ai_verification \<Rightarrow> mine_result option" where
  "mine_block digest now s miner ai_proof =
     (if verify_ai_improvement ai_proof = 0 then Some Rejected
      else if chain s = [] then Some NullTail
      else
        let new_block =
              \<lparr>index = blockchain_height s, timestamp = now,
               prev_hash = hash (last (chain s)), hash = [], nonce = 0,
               difficulty = calculate_difficulty s, mining_type = 0,
               improvement_metric = improvement_percentage ai_proof,
               developer_id =
                 (if length (address miner) < 64 then address miner
                  else address miner @ model_id ai_proof),
               model_hash = model_id ai_proof,
               reward_amount = 0, transactions = []\<rparr>;
            reward = calculate_mining_reward s (mining_type new_block)
                       (improvement_percentage ai_proof);
            new_block = new_block\<lparr>reward_amount := reward\<rparr>
        in if 64 < unat (difficulty new_block) then Some TargetOverflow
           else
             (case find_nonce digest new_block 0 of
                None \<Rightarrow> None
              | Some mined \<Rightarrow>
                  let s' = s\<lparr>chain := chain s @ [mined],
                             blockchain_height := blockchain_height s + 1,
                             total_supply := total_supply s + reward\<rparr>;
                      miner = miner\<lparr>balance := balance miner + reward,
                                    total_mined := total_mined miner + reward,
                                    total_contributions := total_contributions miner + 1\<rparr>;
                      miner =
                        (if precision ai_proof > validation_loss ai_proof
                         then miner\<lparr>accuracy_improvements :=
                                       accuracy_improvements miner + improvement_percentage ai_proof,
                                     models_improved := models_improved miner + 1\<rparr>
                         else miner)
                  in Some (Mined s' miner mined)))"

text \<open>\<^verbatim>\<open>qxc_init\<close> at time \<open>now\<close>: the genesis block, height 1, supply \<open>INITIAL_REWARD\<close>.\<close>

definition qxc_init :: "block_digest \<Rightarrow> 64 word \<Rightarrow> qxc_state" where
  "qxc_init digest now =
     (let genesis =
            \<lparr>index = 0, timestamp = now, prev_hash = ''0'', hash = [], nonce = 0,
             difficulty = 4, mining_type = MINING_TYPE_KERNEL_ENHANCE,
             improvement_metric = 100.0, developer_id = ''QENEX_FOUNDATION'',
             model_hash = [], reward_amount = INITIAL_REWARD, transactions = []\<rparr>;
          genesis = calculate_block_hash digest genesis
      in \<lparr>chain = [genesis], blockchain_height = 1, total_supply = INITIAL_REWARD\<rparr>)"

text \<open>
  A run of the mining engine: each request carries the clock value, the miner wallet and
  the claim. A rejected request leaves the state as it is; a request that does not
  return, or hits undefined behaviour, ends the run without a state.
\<close>

fun mine_sequence ::
  "block_digest \<Rightarrow> qxc_state \<Rightarrow> (64 word \<times> wallet \<times> ai_verification) list \<Rightarrow> qxc_state option" where
  "mine_sequence digest s [] = Some s"
| "mine_sequence digest s ((now, miner, ai_proof) # requests) =
     (case mine_block digest now s miner ai_proof of
        Some (Mined s' miner' b) \<Rightarrow> mine_sequence digest s' requests
      | Some Rejected \<Rightarrow> mine_sequence digest s requests
      | _ \<Rightarrow> None)"

subsection \<open>Chain verification\<close>

text \<open>
  The loop \<^verbatim>\<open>while (current && current->next)\<close> of \<^verbatim>\<open>verify_blockchain_integrity\<close>.
  \<^verbatim>\<open>calculate_block_hash(current)\<close> overwrites the stored hash of the block it checks,
  so the loop returns the chain as it leaves it, next to the result 0 or 1. The index of
  the offending block is printed, not returned.
\<close>

fun verify_loop :: "block_digest \<Rightarrow> block list \<Rightarrow> int \<times> block list" where
  "verify_loop digest (current # nxt # rest) =
     (if hash current \<noteq> prev_hash nxt then (0, current # nxt # rest)
      else
        let original_hash = hash current;
            current = calculate_block_hash digest current
        in if original_hash \<noteq> hash current then (0, current # nxt # rest)
           else (case verify_loop digest (nxt # rest) of
                   (result, checked) \<Rightarrow> (result, current # checked)))"
| "verify_loop digest blocks = (1, blocks)"

definition verify_blockchain_integrity :: "block_digest \<Rightarrow> qxc_state \<Rightarrow> int \<times> qxc_state" where
  "verify_blockchain_integrity digest s =
     (case verify_loop digest (chain s) of (result, checked) \<Rightarrow> (result, s\<lparr>chain := checked\<rparr>))"

text \<open>The two checks of the loop body, as predicates on blocks.\<close>

definition hash_valid :: "block_digest \<Rightarrow> block \<Rightarrow> bool" where
  "hash_valid digest b = (hash (calculate_block_hash digest b) = hash b)"

definition linked :: "block \<Rightarrow> block \<Rightarrow> bool" where
  "linked b nxt = (hash b = prev_hash nxt)"

subsection \<open>Transaction ledger\<close>

text \<open>The inner loop of \<^verbatim>\<open>get_wallet_balance\<close> over the transactions of one block.\<close>

fun tx_loop :: "string \<Rightarrow> transaction list \<Rightarrow> real \<Rightarrow> real" where
  "tx_loop addr [] bal = bal"
| "tx_loop addr (tx # txs) bal =
     (let bal = (if receiver tx = addr then bal + amount tx else bal);
          bal = (if sender tx = addr then bal - (amount tx + fee tx) else bal)
      in tx_loop addr txs bal)"

text \<open>The outer loop \<^verbatim>\<open>while (current) { .. current = current->next; }\<close>\<close>

fun block_loop :: "string \<Rightarrow> block list \<Rightarrow> real \<Rightarrow> real" where
  "block_loop addr [] bal = bal"
| "block_loop addr (current # rest) bal =
     (let bal = (if developer_id current = addr then bal + reward_amount current else bal);
          bal = tx_loop addr (transactions current) bal
      in block_loop addr rest bal)"

definition get_wallet_balance :: "qxc_state \<Rightarrow> string \<Rightarrow> real" where
  "get_wallet_balance s addr = block_loop addr (chain s) 0.0"

text \<open>
  The balance as the specification words it: the rewards of the blocks claimed by the
  address, plus the amounts received, minus amount plus fee of what was sent.
\<close>

definition all_transactions :: "block list \<Rightarrow> transaction list" where
  "all_transactions blocks = concat (map transactions blocks)"

definition scanned_balance :: "block list \<Rightarrow> string \<Rightarrow> real" where
  "scanned_balance blocks addr =
     sum_list (map reward_amount (filter (\<lambda>b. developer_id b = addr) blocks))
     + sum_list (map amount (filter (\<lambda>tx. receiver tx = addr) (all_transactions blocks)))
     - sum_list (map (\<lambda>tx. amount tx + fee tx)
                  (filter (\<lambda>tx. sender tx = addr) (all_transactions blocks)))"

text \<open>
  \<^verbatim>\<open>process_transaction\<close>. Three functions it calls are declared nowhere in the
  sources and are parameters here, acting on a store \<open>'l\<close> of whatever they maintain:
  \<^verbatim>\<open>verify_transaction_signature\<close>, \<^verbatim>\<open>update_balance\<close> and \<^verbatim>\<open>record_ai_contribution\<close>.
\<close>

definition process_transaction ::
  "(transaction \<Rightarrow> bool) \<Rightarrow> (string \<Rightarrow> real \<Rightarrow> 'l \<Rightarrow> 'l) \<Rightarrow> (string \<Rightarrow> transaction \<Rightarrow> 'l \<Rightarrow> 'l)
   \<Rightarrow> qxc_state \<Rightarrow> transaction \<Rightarrow> 'l \<Rightarrow> int \<times> 'l" where
  "process_transaction verify_transaction_signature update_balance record_ai_contribution s tx l =
     (if \<not> verify_transaction_signature tx then (0, l)
      else
        let sender_balance = get_wallet_balance s (sender tx) in
        if sender_balance < amount tx + fee tx then (0, l)
        else
          let l = update_balance (sender tx) (- (amount tx + fee tx)) l;
              l = update_balance (receiver tx) (amount tx) l;
              l = (if contribution_score tx > 0
                   then record_ai_contribution (receiver tx) tx l else l)
          in (1, l))"

text \<open>
  Modelled from the spec: \<^verbatim>\<open>update_balance\<close> is called by \<^verbatim>\<open>process_transaction\<close> and
  defined nowhere in the sources. The specification has a transfer debit the sender and
  credit the receiver; on a store of one balance per address that is adding the signed
  amount to the balance of the address.
\<close>

definition update_balance :: "string \<Rightarrow> real \<Rightarrow> (string \<Rightarrow> real) \<Rightarrow> (string \<Rightarrow> real)" where
  "update_balance addr delta store = store(addr := store addr + delta)"

subsection \<open>Wallets and training nodes\<close>

text \<open>
  \<^verbatim>\<open>create_wallet\<close>: a zeroed wallet whose address is computed from the developer
  identifier alone. The computation (a digest rendered in place) is the parameter
  \<open>derive_address\<close>.
\<close>

definition create_wallet :: "(string \<Rightarrow> string) \<Rightarrow> string \<Rightarrow> wallet" where
  "create_wallet derive_address developer =
     \<lparr>address = derive_address developer, public_key = [], private_key = [], balance = 0,
      total_contributions = 0, total_mined = 0.0, accuracy_improvements = 0,
      speed_improvements = 0, models_improved = 0, algorithms_created = 0\<rparr>"

text \<open>
  \<^verbatim>\<open>training_node_t\<close> of \<^verbatim>\<open>continuous_trainer.c\<close>; the node owns its wallet
  (the pointer \<^verbatim>\<open>wallet\<close> is the only reference to it).
\<close>

record training_node =
  node_id :: string
  ip_address :: string
  port :: "16 word"
  active :: "8 word"
  cpu_cores :: "32 word"
  gpu_count :: "32 word"
  memory_gb :: "64 word"
  tflops :: real
  current_utilization :: real
  task_model_id :: string
  current_epoch :: "32 word"
  total_epochs :: "32 word"
  loss :: real
  accuracy :: real
  start_time :: "64 word"
  samples_processed :: "64 word"
  node_wallet :: wallet
  mining_contribution :: real
  blocks_contributed :: "64 word"

text \<open>\<^verbatim>\<open>finalize_training\<close> prints the summary and adds the completion bonus.\<close>

definition finalize_training :: "training_node \<Rightarrow> training_node" where
  "finalize_training node =
     (let completion_bonus = 0.1 in
      node\<lparr>node_wallet := (node_wallet node)\<lparr>balance := balance (node_wallet node) + completion_bonus\<rparr>\<rparr>)"

subsection \<open>Auxiliary notions and concrete inputs\<close>

text \<open>
  The reward before the supply cap, in closed form: the halving loop run
  \<open>height div 210000\<close> times is a division by a power of two.
\<close>

definition unclamped_reward :: "qxc_state \<Rightarrow> int \<Rightarrow> real \<Rightarrow> real" where
  "unclamped_reward s t x =
     INITIAL_REWARD / 2 ^ (unat (blockchain_height s) div 210000) * type_multiplier t
       * (1 + log 10 (1 + x / 10))"

text \<open>Every block of the chain carries the hash of its predecessor.\<close>

fun chain_linked :: "block list \<Rightarrow> bool" where
  "chain_linked (b # nxt # rest) = (linked b nxt \<and> chain_linked (nxt # rest))"
| "chain_linked blocks = True"

text \<open>A claim that passes the gate: improvement 10, 3 confirmations, score 0.8, F1 0.6.\<close>

definition admitted_claim :: ai_verification where
  "admitted_claim =
     \<lparr>model_id = ''model-a'', baseline_accuracy = 0.80, improved_accuracy = 0.90,
      improvement_percentage = 10, test_samples = 1000, validation_loss = 0.3,
      f1_score = 0.6, precision = 0.7, recall = 0.6, verifying_nodes = 3,
      confirmations = 3, consensus_score = 0.8\<rparr>"

text \<open>
  A digest for concrete runs: it maps every block to 0, so that every hash is 64 zero
  digits and the first nonce meets every target.
\<close>

definition zero_digest :: block_digest where
  "zero_digest = (\<lambda>i t p n m d r. 0)"

text \<open>One mining request on a fresh chain, and the block and state it produces.\<close>

definition example_wallet :: wallet where
  "example_wallet = create_wallet (\<lambda>developer. ''addr-'' @ developer) ''node-1''"

definition example_block :: block where
  "example_block =
     \<lparr>index = 1, timestamp = 60, prev_hash = replicate 64 CHR ''0'',
      hash = replicate 64 CHR ''0'', nonce = 0, difficulty = 4, mining_type = 0,
      improvement_metric = 10, developer_id = ''addr-node-1'', model_hash = ''model-a'',
      reward_amount = calculate_mining_reward (qxc_init zero_digest 0) 0 10,
      transactions = []\<rparr>"

definition example_state :: qxc_state where
  "example_state =
     \<lparr>chain = chain (qxc_init zero_digest 0) @ [example_block], blockchain_height = 2,
      total_supply = INITIAL_REWARD + reward_amount example_block\<rparr>"

text \<open>Hand-made chains: a block with the given previous hash and stored hash.\<close>

definition plain_block :: "string \<Rightarrow> string \<Rightarrow> block" where
  "plain_block previous stored =
     \<lparr>index = 0, timestamp = 0, prev_hash = previous, hash = stored, nonce = 0,
      difficulty = 4, mining_type = 0, improvement_metric = 0, developer_id = [],
      model_hash = [], reward_amount = 0, transactions = []\<rparr>"

definition zeros64 :: string where
  "zeros64 = replicate 64 CHR ''0''"

definition forged_last :: qxc_state where
  "forged_last = \<lparr>chain = [plain_block ''0'' ''bad''], blockchain_height = 1, total_supply = 100\<rparr>"

definition broken_at_0 :: qxc_state where
  "broken_at_0 =
     \<lparr>chain = [plain_block ''0'' ''bad'', plain_block ''bad'' zeros64],
      blockchain_height = 2, total_supply = 100\<rparr>"

definition broken_at_1 :: qxc_state where
  "broken_at_1 =
     \<lparr>chain = [plain_block ''0'' zeros64, plain_block zeros64 ''bad'', plain_block ''bad'' zeros64],
      blockchain_height = 3, total_supply = 100\<rparr>"

text \<open>
  A transfer of one coin from the foundation, a store with no balances, the two constant
  signature predicates and a contribution recorder that leaves the store alone.
\<close>

definition example_transfer :: transaction where
  "example_transfer =
     \<lparr>tx_id = ''tx-1'', sender = ''QENEX_FOUNDATION'', receiver = ''addr-node-1'',
      amount = 1, fee = 0.001, tx_timestamp = 61, signature = [],
      contribution_type = MINING_TYPE_TRAINING_SPEED, contribution_score = 0,
      ai_model_ref = []\<rparr>"

definition empty_store :: "string \<Rightarrow> real" where
  "empty_store = (\<lambda>addr. 0)"

definition accept_all :: "transaction \<Rightarrow> bool" where
  "accept_all tx = True"

definition reject_all :: "transaction \<Rightarrow> bool" where
  "reject_all tx = False"

definition no_record :: "string \<Rightarrow> transaction \<Rightarrow> (string \<Rightarrow> real) \<Rightarrow> (string \<Rightarrow> real)" where
  "no_record addr tx store = store"

section \<open>Binary64 arithmetic\<close>

text \<open>
  A \<^verbatim>\<open>double\<close> as IEEE 754 binary64: a finite value, an infinity or NaN. Every
  operation rounds its exact result to the nearest representable value, ties to even,
  each operation on its own (\<^verbatim>\<open>FLT_EVAL_METHOD\<close> 0). The two zeros are not told apart;
  the code divides by the constants 2.0 and 10.0 only.
\<close>

datatype double = Finite real | PInf | NInf | NaN

definition binade :: "real \<Rightarrow> int" where
  "binade x = max \<lfloor>log 2 \<bar>x\<bar>\<rfloor> (- 1022)"

definition ulp :: "real \<Rightarrow> real" where
  "ulp x = 2 powr (of_int (binade x) - 52)"

text \<open>Rounding to an integer, ties to the even neighbour.\<close>

definition round_half_even :: "real \<Rightarrow> int" where
  "round_half_even y =
     (let n = \<lfloor>y\<rfloor>; f = y - of_int n
      in if f < 1 / 2 then n else if 1 / 2 < f then n + 1 else if even n then n else n + 1)"

text \<open>
  \<open>fl\<close> rounds a real to binary64: to a multiple of the unit in the last place of its
  binade (exponents below \<open>-1022\<close> share the subnormal spacing), and to an infinity when the
  rounded magnitude reaches \<open>2 ^ 1024\<close>.
\<close>

definition overflow_threshold :: real where
  "overflow_threshold = 2 powr 1024"

definition fl :: "real \<Rightarrow> double" where
  "fl x =
     (let r = of_int (round_half_even (x / ulp x)) * ulp x
      in if overflow_threshold \<le> \<bar>r\<bar> then (if 0 < x then PInf else NInf) else Finite r)"

text \<open>Negation, addition, subtraction, multiplication, division and the comparisons.\<close>

fun dneg :: "double \<Rightarrow> double" where
  "dneg (Finite a) = Finite (- a)"
| "dneg PInf = NInf"
| "dneg NInf = PInf"
| "dneg NaN = NaN"

fun dadd :: "double \<Rightarrow> double \<Rightarrow> double" where
  "dadd (Finite a) (Finite b) = fl (a + b)"
| "dadd NaN y = NaN"
| "dadd x NaN = NaN"
| "dadd PInf NInf = NaN"
| "dadd NInf PInf = NaN"
| "dadd PInf y = PInf"
| "dadd x PInf = PInf"
| "dadd NInf y = NInf"
| "dadd x NInf = NInf"

definition dsub :: "double \<Rightarrow> double \<Rightarrow> double" where
  "dsub x y = dadd x (dneg y)"

definition signed_inf :: "bool \<Rightarrow> double" where
  "signed_inf positive = (if positive then PInf else NInf)"

fun dmul :: "double \<Rightarrow> double \<Rightarrow> double" where
  "dmul (Finite a) (Finite b) = fl (a * b)"
| "dmul NaN y = NaN"
| "dmul x NaN = NaN"
| "dmul (Finite a) PInf = (if a = 0 then NaN else signed_inf (0 < a))"
| "dmul (Finite a) NInf = (if a = 0 then NaN else signed_inf (a < 0))"
| "dmul PInf (Finite b) = (if b = 0 then NaN else signed_inf (0 < b))"
| "dmul NInf (Finite b) = (if b = 0 then NaN else signed_inf (b < 0))"
| "dmul PInf PInf = PInf"
| "dmul NInf NInf = PInf"
| "dmul PInf NInf = NInf"
| "dmul NInf PInf = NInf"

fun ddiv :: "double \<Rightarrow> double \<Rightarrow> double" where
  "ddiv (Finite a) (Finite b) =
     (if b = 0 then (if a = 0 then NaN else signed_inf (0 < a)) else fl (a / b))"
| "ddiv NaN y = NaN"
| "ddiv x NaN = NaN"
| "ddiv (Finite a) y = Finite 0"
| "ddiv PInf (Finite b) = signed_inf (0 \<le> b)"
| "ddiv NInf (Finite b) = signed_inf (b < 0)"
| "ddiv x y = NaN"

fun dlt :: "double \<Rightarrow> double \<Rightarrow> bool" where
  "dlt (Finite a) (Finite b) = (a < b)"
| "dlt NaN y = False"
| "dlt x NaN = False"
| "dlt x NInf = False"
| "dlt PInf y = False"
| "dlt NInf y = True"
| "dlt x PInf = True"

definition dgt :: "double \<Rightarrow> double \<Rightarrow> bool" where
  "dgt x y = dlt y x"

fun dle :: "double \<Rightarrow> double \<Rightarrow> bool" where
  "dle (Finite a) (Finite b) = (a \<le> b)"
| "dle NaN y = False"
| "dle x NaN = False"
| "dle NInf y = True"
| "dle x PInf = True"
| "dle x y = False"

text \<open>
  Modelled from the C library: \<^verbatim>\<open>log10\<close> of \<^verbatim>\<open>math.h\<close> is not part of the repository. It
  is taken to return the double nearest to the exact logarithm; the theorems below use
  that \<^verbatim>\<open>log10(10.0)\<close> is 1.0 and that the logarithm of a number from 1.0 on is not
  negative.
\<close>

definition c_log10 :: "double \<Rightarrow> double" where
  "c_log10 x =
     (case x of
        Finite a \<Rightarrow> if a < 0 then NaN else if a = 0 then NInf else fl (log 10 a)
      | PInf \<Rightarrow> PInf
      | NInf \<Rightarrow> NaN
      | NaN \<Rightarrow> NaN)"

text \<open>A lower bound on a double: it is that real or more, or plus infinity.\<close>

fun at_least :: "real \<Rightarrow> double \<Rightarrow> bool" where
  "at_least a (Finite r) = (a \<le> r)"
| "at_least a PInf = True"
| "at_least a d = False"

subsection \<open>The gate and the reward policy in binary64\<close>

text \<open>
  \<^verbatim>\<open>ai_verification_t\<close> with its \<^verbatim>\<open>double\<close> fields as doubles, and
  \<^verbatim>\<open>verify_ai_improvement\<close> with the comparisons of C: a test \<^verbatim>\<open>x < c\<close> is false when
  \<open>x\<close> is NaN.
\<close>

record ai_verification_ieee =
  model_id_d :: string
  baseline_accuracy_d :: double
  improved_accuracy_d :: double
  improvement_percentage_d :: double
  test_samples_d :: "32 word"
  validation_loss_d :: double
  f1_score_d :: double
  precision_d :: double
  recall_d :: double
  verifying_nodes_d :: "32 word"
  confirmations_d :: "32 word"
  consensus_score_d :: double

text \<open>The two globals the reward policy reads and \<^verbatim>\<open>mine_block\<close> updates.\<close>

record ledger_ieee =
  blockchain_height_d :: "32 word"
  total_supply_d :: double

definition verify_ai_improvement_ieee :: "ai_verification_ieee \<Rightarrow> int" where
  "verify_ai_improvement_ieee verification =
     (if dlt (improvement_percentage_d verification) (Finite 1.0) then 0
      else if confirmations_d verification < 3 then 0
      else if dlt (consensus_score_d verification) (Finite 0.75) then 0
      else if dlt (f1_score_d verification) (Finite 0.5) then 0
      else 1)"

text \<open>
  \<^verbatim>\<open>calculate_mining_reward\<close>, operation by operation: the halving loop, the multiplier
  (the literals 1.8, 1.3 and 1.2 are the doubles nearest to them), the improvement factor,
  the product from left to right (\<open>final_reward_ieee\<close>, lines 183 to 224), then the cap
  test on the rounded sum.
\<close>

fun halving_loop_ieee :: "nat \<Rightarrow> double \<Rightarrow> double" where
  "halving_loop_ieee 0 base_reward = base_reward"
| "halving_loop_ieee (Suc n) base_reward = halving_loop_ieee n (ddiv base_reward (Finite 2.0))"

definition type_multiplier_ieee :: "int \<Rightarrow> double" where
  "type_multiplier_ieee t =
     (if t = MINING_TYPE_QUANTUM_INTEGRATE then Finite 3.0
      else if t = MINING_TYPE_ALGORITHM_IMPROVE then Finite 2.5
      else if t = MINING_TYPE_MODEL_ACCURACY then Finite 2.0
      else if t = MINING_TYPE_KERNEL_ENHANCE then fl 1.8
      else if t = MINING_TYPE_TRAINING_SPEED then Finite 1.5
      else if t = MINING_TYPE_SECURITY_PATCH then Finite 1.5
      else if t = MINING_TYPE_PERFORMANCE_BOOST then fl 1.3
      else if t = MINING_TYPE_RESOURCE_OPTIMIZE then fl 1.2
      else Finite 1.0)"

definition final_reward_ieee :: "32 word \<Rightarrow> int \<Rightarrow> double \<Rightarrow> double" where
  "final_reward_ieee height t improvement =
     (let halvings = height div HALVING_INTERVAL;
          base_reward = halving_loop_ieee (unat halvings) (Finite INITIAL_REWARD);
          improvement_multiplier =
            dadd (Finite 1.0) (c_log10 (dadd (Finite 1.0) (ddiv improvement (Finite 10.0))))
      in dmul (dmul base_reward (type_multiplier_ieee t)) improvement_multiplier)"

definition calculate_mining_reward_ieee :: "ledger_ieee \<Rightarrow> int \<Rightarrow> double \<Rightarrow> double" where
  "calculate_mining_reward_ieee s t improvement =
     (let final_reward = final_reward_ieee (blockchain_height_d s) t improvement
      in if dgt (dadd (total_supply_d s) final_reward) (Finite MAX_SUPPLY)
         then dsub (Finite MAX_SUPPLY) (total_supply_d s)
         else final_reward)"

text \<open>
  What \<^verbatim>\<open>mine_block\<close> does to the two globals, and the reward it embeds in the block,
  for a call whose nonce search returns: the gate, the reward for the type a fresh block
  carries (0), \<^verbatim>\<open>blockchain_height++\<close> and \<^verbatim>\<open>total_supply += reward\<close>. \<open>None\<close> is the
  rejected claim.
\<close>

definition mine_block_ieee :: "ledger_ieee \<Rightarrow> ai_verification_ieee \<Rightarrow> (double \<times> ledger_ieee) option" where
  "mine_block_ieee s ai_proof =
     (if verify_ai_improvement_ieee ai_proof = 0 then None
      else
        let reward = calculate_mining_reward_ieee s 0 (improvement_percentage_d ai_proof)
        in Some (reward,
             s\<lparr>blockchain_height_d := blockchain_height_d s + 1,
               total_supply_d := dadd (total_supply_d s) reward\<rparr>))"

text \<open>
  Concrete inputs: a claim with 3 confirmations and the given improvement, consensus
  score and F1 score; three claims with one NaN field each; a claim with improvement 90;
  the counters after \<^verbatim>\<open>qxc_init\<close>; counters with the supply at the cap.
\<close>

definition claim_with :: "double \<Rightarrow> double \<Rightarrow> double \<Rightarrow> ai_verification_ieee" where
  "claim_with improvement score f1 =
     \<lparr>model_id_d = ''model-a'', baseline_accuracy_d = Finite 0.5, improved_accuracy_d = Finite 0.75,
      improvement_percentage_d = improvement, test_samples_d = 1000,
      validation_loss_d = Finite 0.25, f1_score_d = f1, precision_d = Finite 0.75,
      recall_d = Finite 0.5, verifying_nodes_d = 3, confirmations_d = 3,
      consensus_score_d = score\<rparr>"

definition nan_improvement_claim :: ai_verification_ieee where
  "nan_improvement_claim = claim_with NaN (Finite (7 / 8)) (Finite (5 / 8))"

definition nan_score_claim :: ai_verification_ieee where
  "nan_score_claim = claim_with (Finite 10) NaN (Finite (5 / 8))"

definition nan_f1_claim :: ai_verification_ieee where
  "nan_f1_claim = claim_with (Finite 10) (Finite (7 / 8)) NaN"

definition claim_90 :: ai_verification_ieee where
  "claim_90 = claim_with (Finite 90) (Finite (7 / 8)) (Finite (5 / 8))"

definition capped_ledger :: "32 word \<Rightarrow> ledger_ieee" where
  "capped_ledger h = \<lparr>blockchain_height_d = h, total_supply_d = Finite MAX_SUPPLY\<rparr>"

definition genesis_ledger :: ledger_ieee where
  "genesis_ledger = \<lparr>blockchain_height_d = 1, total_supply_d = Finite INITIAL_REWARD\<rparr>"

text \<open>
  A run of calls of \<^verbatim>\<open>mine_block\<close> on the two globals; a rejected claim leaves them as
  they are.
\<close>

fun mine_sequence_ieee :: "ledger_ieee \<Rightarrow> ai_verification_ieee list \<Rightarrow> ledger_ieee" where
  "mine_sequence_ieee s [] = s"
| "mine_sequence_ieee s (ai_proof # rest) =
     (case mine_block_ieee s ai_proof of
        None \<Rightarrow> mine_sequence_ieee s rest
      | Some (reward, s') \<Rightarrow> mine_sequence_ieee s' rest)"

section \<open>Properties\<close>

subsection \<open>Reward policy, on reals\<close>

lemma halving_loop_eq: "halving_loop n r = r / 2 ^ n"
  by (induction n arbitrary: r) simp_all

lemma type_multiplier_pos: "0 < type_multiplier t"
  by (simp add: type_multiplier_def)

lemma improvement_multiplier_pos: "1 \<le> x \<Longrightarrow> 0 < 1 + log 10 (1 + x / 10)"
proof -
  assume "1 \<le> x"
  then have "0 < log 10 (1 + x / 10)" by simp
  then show ?thesis by simp
qed

lemma unclamped_pos: "1 \<le> x \<Longrightarrow> 0 < unclamped_reward s t x"
  using type_multiplier_pos [of t] improvement_multiplier_pos [of x]
  by (simp add: unclamped_reward_def INITIAL_REWARD_def)

text \<open>What the code computes is the closed form, cut at the room left under the cap.\<close>

lemma reward_min:
  "calculate_mining_reward s t x = min (unclamped_reward s t x) (MAX_SUPPLY - total_supply s)"
proof -
  have h: "unat (blockchain_height s div HALVING_INTERVAL) = unat (blockchain_height s) div 210000"
    by (simp add: HALVING_INTERVAL_def unat_div)
  show ?thesis
    unfolding calculate_mining_reward_def Let_def h halving_loop_eq unclamped_reward_def
    by (simp add: min_def not_less)
qed

subsection \<open>Mining engine\<close>

lemma hash_valid_calculate: "hash_valid digest (calculate_block_hash digest b)"
  by (simp add: hash_valid_def calculate_block_hash_def)

lemma calculate_block_hash_fixed:
  "hash_valid digest b \<Longrightarrow> calculate_block_hash digest b = b"
  by (simp add: hash_valid_def calculate_block_hash_def)

lemma find_nonce_Some:
  assumes "find_nonce digest nb n = Some b"
  shows "\<exists>m. b = calculate_block_hash digest (nb\<lparr>nonce := m\<rparr>)"
proof (rule find_nonce.raw_induct
    [where P = "\<lambda>digest nb n b. \<exists>m. b = calculate_block_hash digest (nb\<lparr>nonce := m\<rparr>)",
     OF _ assms])
  fix search :: "block_digest \<Rightarrow> block \<Rightarrow> 32 word \<Rightarrow> block option"
    and d :: block_digest and new_block n y
  assume IH: "\<And>d new_block n y. search d new_block n = Some y
      \<Longrightarrow> \<exists>m. y = calculate_block_hash d (new_block\<lparr>nonce := m\<rparr>)"
    and body: "(let b = calculate_block_hash d (new_block\<lparr>nonce := n\<rparr>)
      in if memcmp (hash b) (replicate (unat (difficulty b)) CHR ''0'') (unat (difficulty b)) \<le> 0
         then Some b else search d new_block (n + 1)) = Some y"
  show "\<exists>m. y = calculate_block_hash d (new_block\<lparr>nonce := m\<rparr>)"
  proof (cases "search d new_block (n + 1) = Some y")
    case True
    then show ?thesis by (rule IH)
  next
    case False
    with body have "y = calculate_block_hash d (new_block\<lparr>nonce := n\<rparr>)"
      by (simp add: Let_def split: if_splits)
    then show ?thesis by blast
  qed
qed

lemma find_nonce_fields:
  assumes "find_nonce digest nb n = Some b"
  shows "hash_valid digest b" "index b = index nb" "prev_hash b = prev_hash nb"
    "reward_amount b = reward_amount nb" "developer_id b = developer_id nb"
    "transactions b = transactions nb"
proof -
  obtain m where b: "b = calculate_block_hash digest (nb\<lparr>nonce := m\<rparr>)"
    using find_nonce_Some [OF assms] by blast
  show "hash_valid digest b" unfolding b by (rule hash_valid_calculate)
  show "index b = index nb" "prev_hash b = prev_hash nb"
    "reward_amount b = reward_amount nb" "developer_id b = developer_id nb"
    "transactions b = transactions nb"
    unfolding b by (simp_all add: calculate_block_hash_def)
qed

lemma mine_block_Mined:
  assumes "mine_block digest now s miner ai_proof = Some (Mined s' miner' b)"
  shows "chain s \<noteq> []" "verify_ai_improvement ai_proof = 1"
    "chain s' = chain s @ [b]"
    "blockchain_height s' = blockchain_height s + 1"
    "total_supply s' = total_supply s + reward_amount b"
    "index b = blockchain_height s"
    "prev_hash b = hash (last (chain s))"
    "hash_valid digest b"
    "reward_amount b = calculate_mining_reward s 0 (improvement_percentage ai_proof)"
    "developer_id b =
       (if length (address miner) < 64 then address miner else address miner @ model_id ai_proof)"
    "transactions b = []"
    "balance miner' = balance miner + reward_amount b"
    "address miner' = address miner"
proof -
  have v: "verify_ai_improvement ai_proof \<noteq> 0" and ne: "chain s \<noteq> []"
    using assms by (auto simp add: mine_block_def split: if_splits)
  let ?nb = "\<lparr>index = blockchain_height s, timestamp = now,
               prev_hash = hash (last (chain s)), hash = [], nonce = 0,
               difficulty = calculate_difficulty s, mining_type = 0,
               improvement_metric = improvement_percentage ai_proof,
               developer_id =
                 (if length (address miner) < 64 then address miner
                  else address miner @ model_id ai_proof),
               model_hash = model_id ai_proof,
               reward_amount = calculate_mining_reward s 0 (improvement_percentage ai_proof),
               transactions = []\<rparr>"
  from assms v ne have fn: "find_nonce digest ?nb 0 = Some b"
    by (auto simp add: mine_block_def Let_def split: if_splits option.splits)
  from assms v ne fn have s': "s' = s\<lparr>chain := chain s @ [b],
                             blockchain_height := blockchain_height s + 1,
                             total_supply := total_supply s + reward_amount ?nb\<rparr>"
    by (auto simp add: mine_block_def Let_def split: if_splits option.splits)
  from assms v ne fn have m': "balance miner' = balance miner + reward_amount ?nb"
     "address miner' = address miner"
    by (auto simp add: mine_block_def Let_def split: if_splits option.splits)
  note f = find_nonce_fields [OF fn]
  show "chain s \<noteq> []" by (rule ne)
  show "verify_ai_improvement ai_proof = 1"
    using v by (simp add: verify_ai_improvement_def split: if_splits)
  show "chain s' = chain s @ [b]" "blockchain_height s' = blockchain_height s + 1"
    by (simp_all add: s')
  show "total_supply s' = total_supply s + reward_amount b"
    by (simp add: s' f(4))
  show "index b = blockchain_height s" using f(2) by simp
  show "prev_hash b = hash (last (chain s))" using f(3) by simp
  show "hash_valid digest b" by (rule f(1))
  show "reward_amount b = calculate_mining_reward s 0 (improvement_percentage ai_proof)"
    using f(4) by simp
  show "developer_id b =
       (if length (address miner) < 64 then address miner else address miner @ model_id ai_proof)"
    using f(5) by simp
  show "transactions b = []" using f(6) by simp
  show "balance miner' = balance miner + reward_amount b" using m'(1) f(4) by simp
  show "address miner' = address miner" by (rule m'(2))
qed

lemma byte_hex_zero: "byte_hex 0 = ''00''"
  by (simp add: byte_hex_def hex_digit_def)

lemma digest_bytes_zero: "digest_bytes 0 = replicate 32 0"
  by (simp add: digest_bytes_def map_replicate_const)

lemma concat_pairs: "concat (replicate n [c, c]) = replicate (2 * n) c"
  by (induction n) simp_all

lemma hex_digest_zero: "hex_digest 0 = replicate 64 CHR ''0''"
  by (simp add: hex_digest_def digest_bytes_zero byte_hex_zero concat_pairs)

lemma genesis_zero:
  "qxc_init zero_digest 0 =
     \<lparr>chain = [\<lparr>index = 0, timestamp = 0, prev_hash = ''0'', hash = replicate 64 CHR ''0'',
               nonce = 0, difficulty = 4, mining_type = 5, improvement_metric = 100,
               developer_id = ''QENEX_FOUNDATION'', model_hash = [], reward_amount = 100,
               transactions = []\<rparr>],
      blockchain_height = 1, total_supply = 100\<rparr>"
  by (simp add: qxc_init_def calculate_block_hash_def zero_digest_def hex_digest_zero
      mining_type_defs INITIAL_REWARD_def)

lemma memcmp_zeros: "memcmp (replicate 64 CHR ''0'') (replicate 4 CHR ''0'') 4 = 0"
  by (simp add: eval_nat_numeral)

lemma example_rec:
  "calculate_block_hash zero_digest (b\<lparr>nonce := n\<rparr>) = b\<lparr>nonce := n, hash := replicate 64 CHR ''0''\<rparr>"
  by (simp add: calculate_block_hash_def zero_digest_def hex_digest_zero)

lemma example_nonce:
  "difficulty b = 4 \<Longrightarrow> find_nonce zero_digest b 0 = Some (b\<lparr>nonce := 0, hash := replicate 64 CHR ''0''\<rparr>)"
  by (subst find_nonce.simps) (simp add: example_rec memcmp_zeros)

lemma admitted_claim_passes: "verify_ai_improvement admitted_claim = 1"
  by (simp add: verify_ai_improvement_def admitted_claim_def)

lemma genesis_difficulty: "calculate_difficulty (qxc_init zero_digest 0) = 4"
  by (simp add: genesis_zero calculate_difficulty_def DIFFICULTY_ADJUSTMENT_INTERVAL_def)

lemma example_mined:
  "mine_block zero_digest 60 (qxc_init zero_digest 0) example_wallet admitted_claim
     = Some (Mined example_state
         (example_wallet\<lparr>balance := reward_amount example_block,
            total_mined := reward_amount example_block, total_contributions := 1,
            accuracy_improvements := 10, models_improved := 1\<rparr>)
         example_block)"
  unfolding mine_block_def admitted_claim_passes genesis_difficulty Let_def
  by (simp add: example_nonce example_state_def example_block_def example_wallet_def
      create_wallet_def admitted_claim_def genesis_zero INITIAL_REWARD_def)

lemma mine_sequence_invariant:
  assumes run: "mine_sequence digest s requests = Some s'"
    and start: "P s"
    and step: "\<And>s now miner ai_proof s' miner' b.
        P s \<Longrightarrow> mine_block digest now s miner ai_proof = Some (Mined s' miner' b) \<Longrightarrow> P s'"
  shows "P s'"
  using run start
proof (induction requests arbitrary: s)
  case Nil
  then show ?case by simp
next
  case (Cons request requests)
  obtain now miner ai_proof where r: "request = (now, miner, ai_proof)"
    by (cases request) auto
  show ?case
  proof (cases "mine_block digest now s miner ai_proof")
    case None
    with Cons.prems(1) r show ?thesis by simp
  next
    case (Some outcome)
    show ?thesis
    proof (cases outcome)
      case Rejected
      with Some Cons.prems r have "mine_sequence digest s requests = Some s'" by simp
      then show ?thesis using Cons.prems(2) by (rule Cons.IH)
    next
      case NullTail
      with Some Cons.prems(1) r show ?thesis by simp
    next
      case TargetOverflow
      with Some Cons.prems(1) r show ?thesis by simp
    next
      case (Mined s1 miner1 b)
      with Some Cons.prems r have "mine_sequence digest s1 requests = Some s'" by simp
      moreover have "P s1" using step [OF Cons.prems(2)] Some Mined by simp
      ultimately show ?thesis by (rule Cons.IH)
    qed
  qed
qed

lemma example_run:
  "mine_sequence zero_digest (qxc_init zero_digest 0) [(60, example_wallet, admitted_claim)]
     = Some example_state"
  by (simp add: example_mined)

subsection \<open>Supply, on reals\<close>

text \<open>
  With exact arithmetic and claims that carry numbers: an admitted claim has improvement
  at least 1, so before the first halving boundary every mined block adds 100 coins or
  more, or fills the cap. Hence in every state reached from the genesis state the supply
  is at most \<open>MAX_SUPPLY\<close>, and it is \<open>MAX_SUPPLY\<close> once the chain has 210000 blocks.
\<close>

lemma gate_improvement: "verify_ai_improvement p = 1 \<Longrightarrow> 1 \<le> improvement_percentage p"
  by (simp add: verify_ai_improvement_def split: if_splits)

lemma unclamped_first_era:
  assumes "1 \<le> x" "unat (blockchain_height s) div 210000 = 0"
  shows "100 \<le> unclamped_reward s 0 x"
proof -
  have "0 \<le> log 10 (1 + x / 10)" using assms(1) by simp
  then show ?thesis
    using assms(2)
    by (simp add: unclamped_reward_def INITIAL_REWARD_def type_multiplier_def mining_type_defs)
qed

lemma supply_reaches_cap:
  assumes run: "mine_sequence digest (qxc_init digest t0) requests = Some s"
  shows "total_supply s \<le> MAX_SUPPLY
       \<and> min MAX_SUPPLY (100 * real (length (chain s))) \<le> total_supply s"
proof -
  let ?inv = "\<lambda>s. blockchain_height s = of_nat (length (chain s))
      \<and> total_supply s \<le> MAX_SUPPLY
      \<and> min MAX_SUPPLY (100 * real (length (chain s))) \<le> total_supply s"
  have "?inv s"
  proof (rule mine_sequence_invariant [OF run, where P = ?inv])
    show "?inv (qxc_init digest t0)"
      by (simp add: qxc_init_def Let_def INITIAL_REWARD_def MAX_SUPPLY_def)
  next
    fix s now miner ai_proof s' miner' b
    assume inv: "?inv s"
      and m: "mine_block digest now s miner ai_proof = Some (Mined s' miner' b)"
    note f = mine_block_Mined [OF m]
    define x where "x = improvement_percentage ai_proof"
    define n where "n = length (chain s)"
    have x: "1 \<le> x" unfolding x_def using f(2) by (rule gate_improvement)
    have r: "reward_amount b = min (unclamped_reward s 0 x) (MAX_SUPPLY - total_supply s)"
      unfolding f(9) x_def by (rule reward_min)
    have upos: "0 < unclamped_reward s 0 x" using x by (rule unclamped_pos)
    have len: "length (chain s') = Suc n" using f(3) by (simp add: n_def)
    have h: "blockchain_height s' = of_nat (length (chain s'))"
      using inv f(4) len by (simp add: n_def)
    have le: "total_supply s' \<le> MAX_SUPPLY"
      using inv r f(5) by (simp add: min_def split: if_splits)
    have lower: "min MAX_SUPPLY (100 * real (Suc n)) \<le> total_supply s'"
    proof (cases "unclamped_reward s 0 x \<le> MAX_SUPPLY - total_supply s")
      case False
      then have "total_supply s' = MAX_SUPPLY" using r f(5) by (simp add: min_def)
      then show ?thesis by simp
    next
      case True
      then have s': "total_supply s' = total_supply s + unclamped_reward s 0 x"
        using r f(5) by (simp add: min_def)
      show ?thesis
      proof (cases "unat (blockchain_height s) div 210000 = 0")
        case True
        then have "100 \<le> unclamped_reward s 0 x" using x by (intro unclamped_first_era)
        moreover have "min MAX_SUPPLY (100 * real n) \<le> total_supply s"
          using inv by (simp add: n_def)
        ultimately show ?thesis unfolding s' by (simp add: min_def split: if_splits)
      next
        case False
        then have "210000 \<le> unat (blockchain_height s)" by (simp add: div_eq_0_iff)
        moreover have "unat (blockchain_height s) \<le> n"
          using inv by (simp add: n_def unat_of_nat)
        ultimately have "210000 \<le> n" by simp
        then have "MAX_SUPPLY \<le> 100 * real n" by (simp add: MAX_SUPPLY_def)
        then have "MAX_SUPPLY \<le> total_supply s" using inv by (simp add: n_def min_def)
        then show ?thesis unfolding s' using upos by (simp add: min_def)
      qed
    qed
    show "?inv s'" using h le lower len by simp
  qed
  then show ?thesis by simp
qed

lemma supply_at_cap_past_first_halving:
  assumes "mine_sequence digest (qxc_init digest t0) requests = Some s"
    and "210000 \<le> length (chain s)"
  shows "total_supply s = MAX_SUPPLY"
proof -
  have "MAX_SUPPLY \<le> 100 * real (length (chain s))"
    using assms(2) by (simp add: MAX_SUPPLY_def)
  then show ?thesis
    using supply_reaches_cap [OF assms(1)] by (simp add: min_def)
qed

subsection \<open>Chain verification\<close>

lemma verify_loop_valid:
  "list_all (hash_valid digest) blocks \<Longrightarrow> chain_linked blocks
   \<Longrightarrow> verify_loop digest blocks = (1, blocks)"
proof (induction digest blocks rule: verify_loop.induct)
  case (1 digest current nxt rest)
  have fixed: "calculate_block_hash digest current = current"
    using "1.prems"(1) by (simp add: calculate_block_hash_fixed)
  have l: "hash current = prev_hash nxt"
    using "1.prems"(2) by (simp add: linked_def)
  have "verify_loop digest (nxt # rest) = (1, nxt # rest)"
    using "1.prems" l fixed by (intro "1.IH") simp_all
  then show ?case using l fixed by simp
qed simp_all

lemma chain_linked_append:
  "chain_linked blocks \<Longrightarrow> blocks \<noteq> [] \<Longrightarrow> linked (last blocks) b
   \<Longrightarrow> chain_linked (blocks @ [b])"
  by (induction blocks rule: chain_linked.induct) simp_all

lemma genesis_valid:
  "list_all (hash_valid digest) (chain (qxc_init digest now))"
  "chain_linked (chain (qxc_init digest now))"
  "chain (qxc_init digest now) \<noteq> []"
  by (simp_all add: qxc_init_def Let_def hash_valid_calculate)

text \<open>
  C4. Every chain produced from the genesis block by a sequence of mining requests that
  all return is reported valid by the verification procedure, which leaves it unchanged.
\<close>

theorem mined_chains_verify:
  assumes "mine_sequence digest (qxc_init digest t0) requests = Some s"
  shows "verify_blockchain_integrity digest s = (1, s)"
proof -
  let ?valid = "\<lambda>s. chain s \<noteq> [] \<and> list_all (hash_valid digest) (chain s) \<and> chain_linked (chain s)"
  have "?valid s"
  proof (rule mine_sequence_invariant [OF assms, where P = ?valid])
    show "?valid (qxc_init digest t0)" using genesis_valid by simp
  next
    fix s now miner ai_proof s' miner' b
    assume inv: "?valid s"
      and m: "mine_block digest now s miner ai_proof = Some (Mined s' miner' b)"
    note f = mine_block_Mined [OF m]
    have "linked (last (chain s)) b" using f(7) by (simp add: linked_def)
    then have "chain_linked (chain s @ [b])"
      using inv by (intro chain_linked_append) simp_all
    then show "?valid s'" using inv f(3) f(8) by simp
  qed
  then have "verify_loop digest (chain s) = (1, chain s)"
    by (intro verify_loop_valid) simp_all
  then show ?thesis by (simp add: verify_blockchain_integrity_def)
qed

theorem mined_chains_verify_witness:
  "mine_sequence zero_digest (qxc_init zero_digest 0) [(60, example_wallet, admitted_claim)]
     = Some example_state
   \<and> verify_blockchain_integrity zero_digest example_state = (1, example_state)
   \<and> length (chain example_state) = 2"
  using mined_chains_verify [OF example_run] example_run
  by (simp add: example_state_def genesis_zero)

lemma verify_loop_result: "fst (verify_loop digest blocks) = 0 \<or> fst (verify_loop digest blocks) = 1"
  by (induction digest blocks rule: verify_loop.induct)
    (auto simp add: Let_def split: prod.splits)

lemma verify_loop_invalid:
  "Suc i < length blocks
   \<Longrightarrow> \<not> linked (blocks ! i) (blocks ! Suc i) \<or> \<not> hash_valid digest (blocks ! i)
   \<Longrightarrow> fst (verify_loop digest blocks) = 0"
proof (induction digest blocks arbitrary: i rule: verify_loop.induct)
  case (1 digest current nxt rest)
  show ?case
  proof (cases "linked current nxt \<and> hash_valid digest current")
    case False
    then show ?thesis
      by (auto simp add: linked_def hash_valid_def Let_def split: prod.splits)
  next
    case True
    then obtain j where i: "i = Suc j"
      using "1.prems"(2) by (cases i) auto
    have l: "hash current = prev_hash nxt" and h: "hash (calculate_block_hash digest current) = hash current"
      using True by (simp_all add: linked_def hash_valid_def)
    have "fst (verify_loop digest (nxt # rest)) = 0"
    proof (rule "1.IH")
      show "\<not> hash current \<noteq> prev_hash nxt" using l by simp
      show "hash current = hash current" by simp
      show "calculate_block_hash digest current = calculate_block_hash digest current" by simp
      show "\<not> hash current \<noteq> hash (calculate_block_hash digest current)" using h by simp
      show "Suc j < length (nxt # rest)" using "1.prems"(1) i by simp
      show "\<not> linked ((nxt # rest) ! j) ((nxt # rest) ! Suc j) \<or> \<not> hash_valid digest ((nxt # rest) ! j)"
        using "1.prems"(2) i by simp
    qed
    then show ?thesis using l h
      by (cases "verify_loop digest (nxt # rest)") (simp add: Let_def)
  qed
qed simp_all

lemma plain_block_valid: "hash_valid zero_digest (plain_block p h) \<longleftrightarrow> h = zeros64"
  by (auto simp add: hash_valid_def calculate_block_hash_def zero_digest_def plain_block_def
      hex_digest_zero zeros64_def)

lemma zeros64_not_bad: "zeros64 \<noteq> ''bad''"
  by (simp add: zeros64_def eval_nat_numeral)

text \<open>
  C5, as stated, fails. The result is 0 or 1 and carries no index: a chain whose first
  bad block is at index 0 and a chain whose first bad block is at index 1 both give 0.
  And the loop stops before the last block, whose stored hash is never recomputed: a
  chain of one block with a forged hash is reported valid.
\<close>

theorem verify_counterexample:
  "fst (verify_blockchain_integrity zero_digest forged_last) = 1
   \<and> \<not> hash_valid zero_digest (chain forged_last ! 0)
   \<and> fst (verify_blockchain_integrity zero_digest broken_at_0) = 0
   \<and> \<not> hash_valid zero_digest (chain broken_at_0 ! 0)
   \<and> fst (verify_blockchain_integrity zero_digest broken_at_1) = 0
   \<and> hash_valid zero_digest (chain broken_at_1 ! 0)
   \<and> linked (chain broken_at_1 ! 0) (chain broken_at_1 ! 1)
   \<and> \<not> hash_valid zero_digest (chain broken_at_1 ! 1)"
proof -
  have v: "hash (calculate_block_hash zero_digest (plain_block p h)) = zeros64" for p h
    by (simp add: calculate_block_hash_def zero_digest_def hex_digest_zero zeros64_def)
  have h: "hash (plain_block p h) = h" "prev_hash (plain_block p h) = p" for p h
    by (simp_all add: plain_block_def)
  have 1: "fst (verify_blockchain_integrity zero_digest forged_last) = 1"
    by (simp add: verify_blockchain_integrity_def forged_last_def)
  have 2: "fst (verify_blockchain_integrity zero_digest broken_at_0) = 0"
    using zeros64_not_bad
    by (simp add: verify_blockchain_integrity_def broken_at_0_def Let_def v h)
  have 3: "fst (verify_blockchain_integrity zero_digest broken_at_1) = 0"
    using zeros64_not_bad
    by (simp add: verify_blockchain_integrity_def broken_at_1_def Let_def v h)
  show ?thesis
    using 1 2 3 zeros64_not_bad
    by (simp add: forged_last_def broken_at_0_def broken_at_1_def plain_block_valid linked_def h)
qed

text \<open>
  C5, amended. The verification walks the chain from the genesis block and answers 0 or
  1: it answers 1, leaving the chain as it is, when every block carries the hash
  recomputed from its fields and every block's hash is the previous-hash of its
  successor; it answers 0 when some block that has a successor fails either check.
\<close>

theorem verify_reports:
  "(fst (verify_blockchain_integrity digest s) = 0 \<or> fst (verify_blockchain_integrity digest s) = 1)
   \<and> (list_all (hash_valid digest) (chain s) \<and> chain_linked (chain s)
        \<longrightarrow> verify_blockchain_integrity digest s = (1, s))
   \<and> (Suc i < length (chain s)
        \<and> (\<not> linked (chain s ! i) (chain s ! Suc i) \<or> \<not> hash_valid digest (chain s ! i))
        \<longrightarrow> fst (verify_blockchain_integrity digest s) = 0)"
proof -
  have f: "fst (verify_blockchain_integrity digest s) = fst (verify_loop digest (chain s))"
    by (simp add: verify_blockchain_integrity_def split: prod.splits)
  have a: "fst (verify_blockchain_integrity digest s) = 0 \<or> fst (verify_blockchain_integrity digest s) = 1"
    unfolding f by (rule verify_loop_result)
  have b: "verify_blockchain_integrity digest s = (1, s)"
    if "list_all (hash_valid digest) (chain s)" "chain_linked (chain s)"
    using verify_loop_valid [OF that] by (simp add: verify_blockchain_integrity_def)
  have c: "fst (verify_blockchain_integrity digest s) = 0"
    if "Suc i < length (chain s)"
      "\<not> linked (chain s ! i) (chain s ! Suc i) \<or> \<not> hash_valid digest (chain s ! i)"
    unfolding f using that by (rule verify_loop_invalid)
  show ?thesis using a b c by blast
qed

theorem verify_reports_witness:
  "list_all (hash_valid zero_digest) (chain example_state) \<and> chain_linked (chain example_state)
   \<and> verify_blockchain_integrity zero_digest example_state = (1, example_state)
   \<and> Suc 1 < length (chain broken_at_1)
   \<and> \<not> hash_valid zero_digest (chain broken_at_1 ! 1)
   \<and> fst (verify_blockchain_integrity zero_digest broken_at_1) = 0"
proof -
  have "hash_valid zero_digest example_block"
    by (simp add: hash_valid_def calculate_block_hash_def zero_digest_def hex_digest_zero
        example_block_def)
  then have a: "list_all (hash_valid zero_digest) (chain example_state)"
    by (simp add: example_state_def genesis_valid(1))
  have b: "chain_linked (chain example_state)"
    by (simp add: example_state_def example_block_def genesis_zero linked_def)
  have c: "Suc 1 < length (chain broken_at_1)"
    by (simp add: broken_at_1_def)
  have d: "\<not> hash_valid zero_digest (chain broken_at_1 ! 1)"
    using zeros64_not_bad by (simp add: broken_at_1_def plain_block_valid)
  have "verify_blockchain_integrity zero_digest example_state = (1, example_state)"
    using verify_reports [of zero_digest example_state] a b by blast
  moreover have "fst (verify_blockchain_integrity zero_digest broken_at_1) = 0"
    using verify_reports [of zero_digest broken_at_1 1] c d by blast
  ultimately show ?thesis using a b c d by blast
qed

subsection \<open>Block indices\<close>

lemma genesis_index:
  "index (hd (chain (qxc_init digest now))) = 0"
  "blockchain_height (qxc_init digest now) = 1"
  "length (chain (qxc_init digest now)) = 1"
  by (simp_all add: qxc_init_def Let_def calculate_block_hash_def)

text \<open>
  C10. The genesis block has index 0 and the initial height is 1; a mining request that
  succeeds appends one block whose index is the height before the append, and adds one to
  the height; hence in every state reached from the genesis state the height is the
  length of the chain and the block at position \<open>i\<close> has index \<open>i\<close> (as
  \<^verbatim>\<open>uint32_t\<close> values, and as numbers for chains of up to \<open>2 ^ 32\<close> blocks).
\<close>

theorem block_indices_consecutive:
  "index (hd (chain (qxc_init digest t0))) = 0
   \<and> blockchain_height (qxc_init digest t0) = 1
   \<and> (mine_block digest now s miner ai_proof = Some (Mined s' miner' b)
        \<longrightarrow> index b = blockchain_height s \<and> chain s' = chain s @ [b]
            \<and> blockchain_height s' = blockchain_height s + 1)
   \<and> (mine_sequence digest (qxc_init digest t0) requests = Some final
        \<longrightarrow> blockchain_height final = of_nat (length (chain final))
            \<and> (\<forall>i < length (chain final).
                  index (chain final ! i) = of_nat i
                  \<and> (length (chain final) \<le> 2 ^ 32 \<longrightarrow> unat (index (chain final ! i)) = i)))"
proof -
  let ?inv = "\<lambda>s. blockchain_height s = of_nat (length (chain s))
      \<and> (\<forall>i < length (chain s). index (chain s ! i) = of_nat i)"
  have step: "index b = blockchain_height s \<and> chain s' = chain s @ [b]
            \<and> blockchain_height s' = blockchain_height s + 1"
    if m: "mine_block digest now s miner ai_proof = Some (Mined s' miner' b)"
    for now s miner ai_proof s' miner' b
    using mine_block_Mined(3,4,6) [OF m] by simp
  have run: "blockchain_height final = of_nat (length (chain final))
            \<and> (\<forall>i < length (chain final).
                  index (chain final ! i) = of_nat i
                  \<and> (length (chain final) \<le> 2 ^ 32 \<longrightarrow> unat (index (chain final ! i)) = i))"
    if r: "mine_sequence digest (qxc_init digest t0) requests = Some final"
  proof -
    have inv: "?inv final"
    proof (rule mine_sequence_invariant [OF r, where P = ?inv])
      show "?inv (qxc_init digest t0)"
        by (simp add: qxc_init_def Let_def calculate_block_hash_def)
    next
      fix s now miner ai_proof s' miner' b
      assume i: "?inv s"
        and m: "mine_block digest now s miner ai_proof = Some (Mined s' miner' b)"
      show "?inv s'"
        using i step [OF m] by (auto simp add: nth_append less_Suc_eq)
    qed
    have "unat (index (chain final ! i)) = i"
      if "i < length (chain final)" "length (chain final) \<le> 2 ^ 32" for i
    proof -
      have "i < 2 ^ 32" using that by simp
      then have "unat (of_nat i :: 32 word) = i"
        by (simp add: unat_of_nat)
      then show ?thesis using inv that(1) by simp
    qed
    then show ?thesis using inv by blast
  qed
  show ?thesis using genesis_index(1,2) step run by blast
qed

theorem block_indices_consecutive_witness:
  "mine_block zero_digest 60 (qxc_init zero_digest 0) example_wallet admitted_claim
     = Some (Mined example_state
         (example_wallet\<lparr>balance := reward_amount example_block,
            total_mined := reward_amount example_block, total_contributions := 1,
            accuracy_improvements := 10, models_improved := 1\<rparr>)
         example_block)
   \<and> index example_block = blockchain_height (qxc_init zero_digest 0)
   \<and> mine_sequence zero_digest (qxc_init zero_digest 0) [(60, example_wallet, admitted_claim)]
       = Some example_state
   \<and> (1::nat) < length (chain example_state)
   \<and> length (chain example_state) \<le> 2 ^ 32
   \<and> unat (index (chain example_state ! 1)) = 1"
proof -
  have l: "length (chain example_state) = 2"
    by (simp add: example_state_def genesis_zero)
  note t = block_indices_consecutive [of zero_digest 0 60 "qxc_init zero_digest 0" example_wallet
      admitted_claim example_state
      "example_wallet\<lparr>balance := reward_amount example_block,
            total_mined := reward_amount example_block, total_contributions := 1,
            accuracy_improvements := 10, models_improved := 1\<rparr>"
      example_block "[(60, example_wallet, admitted_claim)]" example_state]
  have A: "index example_block = blockchain_height (qxc_init zero_digest 0)"
    using t example_mined by blast
  have B: "\<forall>i < length (chain example_state).
             index (chain example_state ! i) = of_nat i
             \<and> (length (chain example_state) \<le> 2 ^ 32
                  \<longrightarrow> unat (index (chain example_state ! i)) = i)"
    using t example_run by blast
  have C: "unat (index (chain example_state ! 1)) = 1"
    using B [rule_format, of 1] l by simp
  show ?thesis using A C example_mined example_run l by simp
qed

subsection \<open>Transaction ledger\<close>

lemma tx_loop_sum:
  "tx_loop addr txs bal =
     bal + sum_list (map amount (filter (\<lambda>tx. receiver tx = addr) txs))
         - sum_list (map (\<lambda>tx. amount tx + fee tx) (filter (\<lambda>tx. sender tx = addr) txs))"
  by (induction txs arbitrary: bal) (simp_all add: Let_def)

lemma block_loop_sum:
  "block_loop addr blocks bal = bal + scanned_balance blocks addr"
proof (induction blocks arbitrary: bal)
  case Nil
  show ?case by (simp add: scanned_balance_def all_transactions_def)
next
  case (Cons current rest)
  show ?case
    by (simp add: Cons.IH tx_loop_sum Let_def scanned_balance_def all_transactions_def)
qed

text \<open>
  C6. For every address and every chain, the balance query is the scan of the whole
  chain: the rewards of the blocks whose claimant is the address, plus the amounts of the
  transactions received by the address, minus amount plus fee of the transactions sent
  by it.
\<close>

theorem balance_is_chain_scan:
  "get_wallet_balance s addr =
     sum_list (map reward_amount (filter (\<lambda>b. developer_id b = addr) (chain s)))
     + sum_list (map amount (filter (\<lambda>tx. receiver tx = addr) (concat (map transactions (chain s)))))
     - sum_list (map (\<lambda>tx. amount tx + fee tx)
                  (filter (\<lambda>tx. sender tx = addr) (concat (map transactions (chain s)))))"
  using block_loop_sum [of addr "chain s" 0]
  by (simp add: get_wallet_balance_def scanned_balance_def all_transactions_def)

lemma genesis_balance:
  "get_wallet_balance (qxc_init digest now) addr = (if addr = ''QENEX_FOUNDATION'' then 100 else 0)"
  by (simp add: get_wallet_balance_def qxc_init_def Let_def calculate_block_hash_def
      INITIAL_REWARD_def)

lemma update_balance_spec:
  "\<forall>addr delta l a. (\<lambda>store. store) (update_balance addr delta l) a
      = (if a = addr then (\<lambda>store. store) l a + delta else (\<lambda>store. store) l a)"
  by (simp add: update_balance_def)

text \<open>
  C7, as stated, fails: the signature check comes first. With a signature predicate that
  rejects, a transfer whose sender can afford amount plus fee returns 0 and changes no
  balance.
\<close>

theorem transfer_counterexample:
  "\<not> get_wallet_balance (qxc_init zero_digest 0) (sender example_transfer)
        < amount example_transfer + fee example_transfer
   \<and> process_transaction reject_all update_balance no_record (qxc_init zero_digest 0)
        example_transfer empty_store = (0, empty_store)"
  by (simp add: genesis_balance process_transaction_def reject_all_def example_transfer_def)

text \<open>
  C7, amended. A transfer fails, and changes no balance, whenever the sender's balance
  derived from the chain is less than amount plus fee or the signature predicate rejects
  the transaction; otherwise it returns 1, and it has debited the sender by amount plus
  fee and credited the receiver by amount. The balance updates are those of
  \<^verbatim>\<open>update_balance\<close>, assumed to add the signed amount to the balance of the address,
  and recording a contribution is assumed to leave balances alone.
\<close>

theorem transfer_outcome:
  assumes upd: "\<forall>addr delta l a. bal (update_bal addr delta l) a
                  = (if a = addr then bal l a + delta else bal l a)"
    and rec: "\<forall>addr tx l. bal (record_contribution addr tx l) = bal l"
  shows "(get_wallet_balance s (sender tx) < amount tx + fee tx \<or> \<not> verify_signature tx
            \<longrightarrow> process_transaction verify_signature update_bal record_contribution s tx l = (0, l))
       \<and> (verify_signature tx \<and> \<not> get_wallet_balance s (sender tx) < amount tx + fee tx
            \<longrightarrow> fst (process_transaction verify_signature update_bal record_contribution s tx l) = 1
              \<and> (\<forall>a. bal (snd (process_transaction verify_signature update_bal record_contribution s tx l)) a
                     = bal l a - (if a = sender tx then amount tx + fee tx else 0)
                             + (if a = receiver tx then amount tx else 0)))"
proof -
  have fail: "process_transaction verify_signature update_bal record_contribution s tx l = (0, l)"
    if "get_wallet_balance s (sender tx) < amount tx + fee tx \<or> \<not> verify_signature tx"
    using that by (auto simp add: process_transaction_def Let_def)
  have ok: "fst (process_transaction verify_signature update_bal record_contribution s tx l) = 1
     \<and> (\<forall>a. bal (snd (process_transaction verify_signature update_bal record_contribution s tx l)) a
           = bal l a - (if a = sender tx then amount tx + fee tx else 0)
                   + (if a = receiver tx then amount tx else 0))"
    if "verify_signature tx" "\<not> get_wallet_balance s (sender tx) < amount tx + fee tx"
    using that upd rec by (simp add: process_transaction_def Let_def)
  show ?thesis using fail ok by blast
qed

theorem transfer_outcome_witness:
  "accept_all example_transfer
   \<and> \<not> get_wallet_balance (qxc_init zero_digest 0) (sender example_transfer)
         < amount example_transfer + fee example_transfer
   \<and> fst (process_transaction accept_all update_balance no_record (qxc_init zero_digest 0)
         example_transfer empty_store) = 1
   \<and> snd (process_transaction accept_all update_balance no_record (qxc_init zero_digest 0)
         example_transfer empty_store) ''QENEX_FOUNDATION'' = - 1.001
   \<and> snd (process_transaction accept_all update_balance no_record (qxc_init zero_digest 0)
         example_transfer empty_store) ''addr-node-1'' = 1
   \<and> get_wallet_balance (qxc_init zero_digest 0) ''addr-node-1'' < 1 + 0.001
   \<and> process_transaction accept_all update_balance no_record (qxc_init zero_digest 0)
         (example_transfer\<lparr>sender := ''addr-node-1'', receiver := ''QENEX_FOUNDATION''\<rparr>)
         empty_store = (0, empty_store)"
proof -
  have rec: "\<forall>addr tx l. (\<lambda>store. store) (no_record addr tx l) = (\<lambda>store. store) l"
    by (simp add: no_record_def)
  note t = transfer_outcome [where bal = "\<lambda>store. store", OF update_balance_spec rec,
      of "qxc_init zero_digest 0" _ accept_all empty_store]
  have a: "accept_all example_transfer" by (simp add: accept_all_def)
  have b: "\<not> get_wallet_balance (qxc_init zero_digest 0) (sender example_transfer)
         < amount example_transfer + fee example_transfer"
    by (simp add: genesis_balance example_transfer_def)
  have c: "get_wallet_balance (qxc_init zero_digest 0)
             (sender (example_transfer\<lparr>sender := ''addr-node-1'', receiver := ''QENEX_FOUNDATION''\<rparr>))
           < amount (example_transfer\<lparr>sender := ''addr-node-1'', receiver := ''QENEX_FOUNDATION''\<rparr>)
             + fee (example_transfer\<lparr>sender := ''addr-node-1'', receiver := ''QENEX_FOUNDATION''\<rparr>)"
    by (simp add: genesis_balance example_transfer_def)
  have ok: "fst (process_transaction accept_all update_balance no_record (qxc_init zero_digest 0)
         example_transfer empty_store) = 1"
    and balances: "\<forall>a. snd (process_transaction accept_all update_balance no_record
         (qxc_init zero_digest 0) example_transfer empty_store) a
       = empty_store a - (if a = sender example_transfer
                          then amount example_transfer + fee example_transfer else 0)
           + (if a = receiver example_transfer then amount example_transfer else 0)"
    using t [of example_transfer] a b by blast+
  have fail: "process_transaction accept_all update_balance no_record (qxc_init zero_digest 0)
         (example_transfer\<lparr>sender := ''addr-node-1'', receiver := ''QENEX_FOUNDATION''\<rparr>)
         empty_store = (0, empty_store)"
    using t [of "example_transfer\<lparr>sender := ''addr-node-1'', receiver := ''QENEX_FOUNDATION''\<rparr>"] c
    by blast
  have s: "snd (process_transaction accept_all update_balance no_record (qxc_init zero_digest 0)
         example_transfer empty_store) ''QENEX_FOUNDATION'' = - 1.001"
    using balances [rule_format, of "''QENEX_FOUNDATION''"]
    by (simp add: example_transfer_def empty_store_def)
  have r: "snd (process_transaction accept_all update_balance no_record (qxc_init zero_digest 0)
         example_transfer empty_store) ''addr-node-1'' = 1"
    using balances [rule_format, of "''addr-node-1''"]
    by (simp add: example_transfer_def empty_store_def)
  have c': "get_wallet_balance (qxc_init zero_digest 0) ''addr-node-1'' < 1 + 0.001"
    by (simp add: genesis_balance)
  show ?thesis using a b ok s r c' fail by blast
qed

subsection \<open>Cached and derived balance\<close>

text \<open>
  C9. After \<^verbatim>\<open>qxc_init\<close>, the creation of a node's wallet and the completion of the
  node's training, the balance cached in the wallet (the completion bonus) differs from
  the balance derived from the chain for the wallet's address: the bonus is written to
  the wallet only, no block records it.
\<close>

theorem cached_balance_diverges:
  "balance (node_wallet (finalize_training
       (node\<lparr>node_wallet := create_wallet derive_address developer\<rparr>)))
   \<noteq> get_wallet_balance (qxc_init digest now)
       (address (node_wallet (finalize_training
          (node\<lparr>node_wallet := create_wallet derive_address developer\<rparr>))))"
  by (simp add: finalize_training_def create_wallet_def genesis_balance)

section \<open>Properties in binary64\<close>

subsection \<open>Rounding\<close>

lemma round_half_even_int: "round_half_even (of_int n) = n"
  by (simp add: round_half_even_def)

lemma round_half_even_ge: "of_int n \<le> y \<Longrightarrow> n \<le> round_half_even y"
proof -
  assume "of_int n \<le> y"
  then have "n \<le> \<lfloor>y\<rfloor>" by (simp add: le_floor_iff)
  then show ?thesis by (simp add: round_half_even_def Let_def)
qed

lemma round_half_even_down:
  assumes "of_int n \<le> y" "y < of_int n + 1 / 2"
  shows "round_half_even y = n"
proof -
  have "\<lfloor>y\<rfloor> = n" using assms by (simp add: floor_eq_iff)
  then show ?thesis using assms by (simp add: round_half_even_def Let_def)
qed

lemma round_half_even_up:
  assumes "of_int n + 1 / 2 < y"
  shows "n + 1 \<le> round_half_even y"
proof (cases "of_int n + 1 \<le> y")
  case True
  then have "of_int (n + 1) \<le> y" by simp
  then show ?thesis by (rule round_half_even_ge)
next
  case False
  then have "\<lfloor>y\<rfloor> = n" using assms by (simp add: floor_eq_iff)
  then show ?thesis using assms by (simp add: round_half_even_def Let_def)
qed

lemma pow2_int_diff: "2 powr (of_int (int a - int b)) = (2::real) ^ a / 2 ^ b"
proof -
  have "2 powr (of_int (int a - int b)) = 2 powr (real a - real b)" by simp
  also have "\<dots> = 2 powr (real a) / 2 powr (real b)" by (simp add: powr_diff)
  also have "\<dots> = (2::real) ^ a / 2 ^ b" by (simp add: powr_realpow)
  finally show ?thesis .
qed

lemma binade_eq:
  assumes "0 < x" "2 powr (of_int e) \<le> x" "x < 2 powr (of_int e + 1)" "- 1022 \<le> e"
  shows "binade x = e"
proof -
  have "\<lfloor>log 2 x\<rfloor> = e"
    using assms by (subst floor_log_eq_powr_iff) simp_all
  then show ?thesis using assms by (simp add: binade_def)
qed

lemma binade_lower:
  assumes "0 < x" "2 powr (of_int e) \<le> x" "- 1022 \<le> e"
  shows "e \<le> binade x" "2 powr (of_int (binade x)) \<le> x"
proof -
  let ?k = "\<lfloor>log 2 x\<rfloor>"
  have k: "2 powr (of_int ?k) \<le> x \<and> x < 2 powr (of_int ?k + 1)"
    using floor_log_eq_powr_iff [of x 2 ?k] assms(1) by simp
  have "of_int e \<le> log 2 x"
    using assms(1,2) by (simp add: le_log_iff)
  then have ek: "e \<le> ?k" by (simp add: le_floor_iff)
  then have b: "binade x = ?k" using assms(1,3) by (simp add: binade_def)
  show "e \<le> binade x" using ek b by simp
  show "2 powr (of_int (binade x)) \<le> x" using k b by simp
qed

text \<open>fl on a positive real of known binade\<close>

lemma overflow_threshold_pos: "0 < overflow_threshold"
  unfolding overflow_threshold_def by (rule powr_gt_zero [THEN iffD2]) simp

lemma below_threshold: "x < 2 powr (of_int e + 1) \<Longrightarrow> e < 1024 \<Longrightarrow> x < overflow_threshold"
proof -
  assume a: "x < 2 powr (of_int e + 1)" and b: "e < 1024"
  have "of_int e + 1 \<le> (1024 :: real)" using b by linarith
  then have "2 powr (of_int e + 1) \<le> (2::real) powr 1024"
    by (rule powr_mono) simp
  then show ?thesis using a unfolding overflow_threshold_def by linarith
qed

lemma fl_in_binade:
  assumes "0 < x" "2 powr (of_int e) \<le> x" "x < 2 powr (of_int e + 1)" "- 1022 \<le> e"
  shows "fl x =
     (let r = of_int (round_half_even (x / 2 powr (of_int e - 52))) * 2 powr (of_int e - 52)
      in if overflow_threshold \<le> \<bar>r\<bar> then PInf else Finite r)"
  using assms(1) by (simp add: fl_def ulp_def binade_eq [OF assms])

lemma fl_zero: "fl 0 = Finite 0"
  using overflow_threshold_pos by (simp add: fl_def round_half_even_def)

lemma fl_exact:
  assumes "0 < x" "2 powr (of_int e) \<le> x" "x < 2 powr (of_int e + 1)" "- 1022 \<le> e"
    and "e < 1024"
    and "x = of_int n * 2 powr (of_int e - 52)"
  shows "fl x = Finite x"
proof -
  have u: "0 < 2 powr (of_int e - 52 :: real)" by simp
  have q: "x / 2 powr (of_int e - 52) = of_int n"
    using assms(6) u by simp
  have small: "\<bar>x\<bar> < overflow_threshold"
    using below_threshold [OF assms(3,5)] assms(1) by simp
  show ?thesis
    unfolding fl_in_binade [OF assms(1-4)] q round_half_even_int Let_def
    using assms(6) small by simp
qed

lemma fl_dyadic:
  assumes "2 ^ e \<le> m" "m < 2 ^ Suc e" "e \<le> 52" "k \<le> 1000"
  shows "fl (real m / 2 ^ k) = Finite (real m / 2 ^ k)"
proof (rule fl_exact [where e = "int e - int k" and n = "int (m * 2 ^ (52 - e))"])
  have p: "2 powr (of_int (int e - int k)) = (2::real) ^ e / 2 ^ k"
    by (rule pow2_int_diff)
  have "0 < m" using assms(1) by (cases m) simp_all
  then show "0 < real m / 2 ^ k" by simp
  have "(2::real) ^ e \<le> real m"
    using assms(1) by (metis of_nat_le_iff of_nat_numeral of_nat_power)
  then show "2 powr (of_int (int e - int k)) \<le> real m / 2 ^ k"
    unfolding p by (simp add: divide_right_mono)
  have "real m < 2 ^ Suc e"
    using assms(2) by (metis of_nat_less_iff of_nat_numeral of_nat_power)
  then have "real m / 2 ^ k < 2 ^ Suc e / 2 ^ k"
    by (simp add: divide_strict_right_mono)
  moreover have "2 powr (of_int (int e - int k) + 1) = (2::real) ^ Suc e / 2 ^ k"
    unfolding powr_add p by simp
  ultimately show "real m / 2 ^ k < 2 powr (of_int (int e - int k) + 1)" by simp
  show "- 1022 \<le> int e - int k" using assms(4) by simp
  show "int e - int k < 1024" using assms(3) by simp
  define E :: real where "E = 2 ^ e"
  define K :: real where "K = 2 ^ k"
  define P :: real where "P = 2 ^ (52 - e)"
  define C :: real where "C = 2 ^ 52"
  have pos: "0 < E" "0 < K" "0 < P" "0 < C"
    by (simp_all add: E_def K_def P_def C_def)
  have PE: "P * E = C"
    using assms(3) unfolding P_def E_def C_def
    by (metis le_add_diff_inverse2 power_add)
  have "2 powr (of_int (int e - int k) - 52) = 2 powr (of_int (int e - int k)) / (2::real) powr 52"
    by (simp add: powr_diff)
  also have "(2::real) powr 52 = C"
    unfolding C_def using powr_realpow [of 2 52] by simp
  finally have U: "2 powr (of_int (int e - int k) - 52) = E / K / C"
    unfolding p E_def K_def .
  have I: "of_int (int (m * 2 ^ (52 - e))) = real m * P"
    unfolding P_def by simp
  have "real m * P * (E / K / C) = real m / K"
    using pos PE by (simp add: field_simps)
  then show "real m / 2 ^ k
      = of_int (int (m * 2 ^ (52 - e))) * 2 powr (of_int (int e - int k) - 52)"
    unfolding U I K_def [symmetric] by (rule sym)
qed

lemma fl_lower:
  assumes a: "0 < a" "2 powr (of_int e) \<le> a" "a < 2 powr (of_int e + 1)" "- 1022 \<le> e"
    and n: "a = of_int n * 2 powr (of_int e - 52)"
    and x: "a \<le> x"
  shows "at_least a (fl x)"
proof -
  have xpos: "0 < x" using a(1) x by simp
  have le: "2 powr (of_int e) \<le> x" using a(2) x by simp
  note b = binade_lower [OF xpos le a(4)]
  let ?u = "2 powr (of_int (binade x) - 52) :: real"
  let ?r = "of_int (round_half_even (x / ?u)) * ?u"
  have upos: "0 < ?u" by simp
  have "a \<le> ?r"
  proof (cases "binade x = e")
    case True
    have "of_int n \<le> x / ?u"
      using x n upos unfolding True by (simp add: le_divide_eq)
    then have "n \<le> round_half_even (x / ?u)" by (rule round_half_even_ge)
    then have "of_int n * ?u \<le> ?r" using upos by simp
    then show ?thesis using n unfolding True by simp
  next
    case False
    then have "e + 1 \<le> binade x" using b(1) by simp
    then have "of_int e + 1 \<le> (of_int (binade x) :: real)" by linarith
    then have "2 powr (of_int e + 1) \<le> (2::real) powr (of_int (binade x))"
      by (rule powr_mono) simp
    then have above: "a < 2 powr (of_int (binade x))" using a(3) by linarith
    have "2 powr (of_int (binade x)) / ?u = (2::real) powr 52"
      by (simp add: powr_diff)
    also have "\<dots> = of_int (2 ^ 52)" by simp
    finally have "of_int (2 ^ 52) \<le> x / ?u"
      using b(2) upos by (metis divide_right_mono less_imp_le)
    then have "2 ^ 52 \<le> round_half_even (x / ?u)" by (rule round_half_even_ge)
    then have "of_int (2 ^ 52) * ?u \<le> ?r" using upos by simp
    moreover have "of_int (2 ^ 52) * ?u = (2::real) powr (of_int (binade x))"
      by (simp add: powr_diff)
    ultimately show ?thesis using above by linarith
  qed
  then show ?thesis
    using xpos by (simp add: fl_def ulp_def Let_def)
qed


lemma at_least_mono: "a \<le> b \<Longrightarrow> at_least b d \<Longrightarrow> at_least a d"
  by (cases d) simp_all

lemma fl_cases: "0 < x \<Longrightarrow> fl x = PInf \<or> (\<exists>r. fl x = Finite r)"
  by (simp add: fl_def Let_def)

lemma fl_nat: "0 < m \<Longrightarrow> 2 ^ e \<le> m \<Longrightarrow> m < 2 ^ Suc e \<Longrightarrow> e \<le> 52 \<Longrightarrow> fl (real m) = Finite (real m)"
  using fl_dyadic [of e m 0] by simp

lemma fl_1: "fl 1 = Finite 1"
  using fl_nat [of 1 0] by simp

lemma fl_2: "fl 2 = Finite 2"
  using fl_nat [of 2 1] by simp

lemma fl_9: "fl 9 = Finite 9"
  using fl_nat [of 9 3] by simp

lemma fl_10: "fl 10 = Finite 10"
  using fl_nat [of 10 3] by simp

lemma fl_max_plus: "fl 21000050 = Finite 21000050" "fl 21000100 = Finite 21000100"
  using fl_nat [of 21000050 24] fl_nat [of 21000100 24] by simp_all

lemma fl_absorb:
  assumes "0 \<le> d" "d < 1 / 2 ^ 29"
  shows "fl (21000000 + d) = Finite 21000000"
proof -
  let ?x = "21000000 + d"
  have d1: "d < 1" using assms(2) by simp
  have b: "0 < ?x" "2 powr (of_int 24) \<le> ?x" "?x < 2 powr (of_int 24 + 1)" "- 1022 \<le> (24::int)"
    using assms(1) d1 by simp_all
  have u: "2 powr (of_int 24 - 52) = 1 / (2::real) ^ 28"
    using powr_minus_divide [of "2::real" 28] by simp
  have "round_half_even (?x / (1 / 2 ^ 28)) = 21000000 * 2 ^ 28"
  proof (rule round_half_even_down)
    show "of_int (21000000 * 2 ^ 28) \<le> ?x / (1 / 2 ^ 28)"
      using assms(1) by simp
    have "d * 2 ^ 28 < 1 / 2" using assms(2) by (simp add: field_simps)
    then show "?x / (1 / 2 ^ 28) < of_int (21000000 * 2 ^ 28) + 1 / 2"
      by (simp add: algebra_simps)
  qed
  then have r: "of_int (round_half_even (?x / (1 / 2 ^ 28))) * (1 / 2 ^ 28) = (21000000 :: real)"
    by simp
  have "(21000000::real) < 2 powr (of_int 24 + 1)" by simp
  then have "(21000000::real) < overflow_threshold"
    by (rule below_threshold) simp
  then show ?thesis
    unfolding fl_in_binade [OF b] u Let_def r by simp
qed

lemma fl_above_cap:
  assumes "21000000 + 1 / 2 ^ 29 < x"
  shows "at_least (21000000 + 1 / 2 ^ 28) (fl x)"
proof (cases "x < 2 powr (of_int 24 + 1)")
  case True
  have b: "0 < x" "2 powr (of_int 24) \<le> x" "x < 2 powr (of_int 24 + 1)" "- 1022 \<le> (24::int)"
    using assms True by simp_all
  have u: "2 powr (of_int 24 - 52) = 1 / (2::real) ^ 28"
    using powr_minus_divide [of "2::real" 28] by simp
  have "of_int (21000000 * 2 ^ 28) + 1 / 2 < x / (1 / 2 ^ 28)"
    using assms by (simp add: field_simps)
  then have "21000000 * 2 ^ 28 + 1 \<le> round_half_even (x / (1 / 2 ^ 28))"
    by (rule round_half_even_up)
  then have "of_int (21000000 * 2 ^ 28 + 1) \<le> (of_int (round_half_even (x / (1 / 2 ^ 28))) :: real)"
    by (simp only: of_int_le_iff)
  then have "of_int (21000000 * 2 ^ 28 + 1) * (1 / 2 ^ 28)
      \<le> of_int (round_half_even (x / (1 / 2 ^ 28))) * (1 / (2::real) ^ 28)"
    by (rule mult_right_mono) simp
  then have "21000000 + 1 / 2 ^ 28 \<le> of_int (round_half_even (x / (1 / 2 ^ 28))) * (1 / (2::real) ^ 28)"
    by simp
  then show ?thesis
    unfolding fl_in_binade [OF b] u Let_def by simp
next
  case False
  then have x: "2 powr (of_int 25) \<le> x" by simp
  have "at_least (2 powr (of_int 25)) (fl x)"
  proof (rule fl_lower [where e = 25 and n = "2 ^ 52"])
    show "2 powr (of_int 25) \<le> x" by (rule x)
    show "(2 powr (of_int 25) :: real) = of_int (2 ^ 52) * 2 powr (of_int 25 - 52)"
      using powr_minus_divide [of "2::real" 27] by simp
  qed simp_all
  moreover have "21000000 + 1 / 2 ^ 28 \<le> (2::real) powr (of_int 25)" by simp
  ultimately show ?thesis by (rule at_least_mono [rotated])
qed

subsection \<open>Reward policy\<close>

lemma halving_loop_ieee_100:
  "k + n \<le> 1000 \<Longrightarrow> halving_loop_ieee n (Finite (100 / 2 ^ k)) = Finite (100 / 2 ^ (k + n))"
proof (induction n arbitrary: k)
  case 0
  show ?case by simp
next
  case (Suc n)
  have "fl (real 100 / 2 ^ Suc k) = Finite (real 100 / 2 ^ Suc k)"
    using Suc.prems by (intro fl_dyadic [where e = 6]) simp_all
  then have "ddiv (Finite (100 / 2 ^ k)) (Finite 2) = Finite (100 / 2 ^ Suc k)"
    by simp
  then show ?case using Suc.IH [of "Suc k"] Suc.prems by simp
qed

lemma base_reward_ieee:
  "k \<le> 1000 \<Longrightarrow> halving_loop_ieee k (Finite INITIAL_REWARD) = Finite (100 / 2 ^ k)"
  using halving_loop_ieee_100 [of 0 k] by (simp add: INITIAL_REWARD_def)

lemma halvings_unat: "unat (h div HALVING_INTERVAL) = unat h div 210000"
  by (simp add: HALVING_INTERVAL_def unat_div)

lemma improvement_multiplier_90:
  "dadd (Finite 1.0) (c_log10 (dadd (Finite 1.0) (ddiv (Finite 90) (Finite 10.0)))) = Finite 2"
  by (simp add: c_log10_def fl_9 fl_10 fl_1 fl_2)

lemma final_reward_90:
  assumes "unat h div 210000 = k" "k \<le> 1000"
  shows "final_reward_ieee h 0 (Finite 90) = Finite (200 / 2 ^ k)"
proof -
  have b: "fl (100 / 2 ^ k) = Finite (100 / 2 ^ k)"
    using fl_dyadic [of 6 100 k] assms(2) by simp
  have c: "fl (200 / 2 ^ k) = Finite (200 / 2 ^ k)"
    using fl_dyadic [of 7 200 k] assms(2) by simp
  have t: "type_multiplier_ieee 0 = Finite 1"
    by (simp add: type_multiplier_ieee_def mining_type_defs)
  show ?thesis
    unfolding final_reward_ieee_def Let_def halvings_unat assms(1) base_reward_ieee [OF assms(2)]
      improvement_multiplier_90 t
    by (simp add: b c)
qed



lemma dmul_NaN [simp]: "dmul x NaN = NaN"
  by (cases x) simp_all

lemma dadd_NaN [simp]: "dadd x NaN = NaN"
  by (cases x) simp_all







lemma cap_fires:
  assumes "at_least (100 / 2 ^ 35) d"
  shows "dgt (dadd (Finite MAX_SUPPLY) d) (Finite MAX_SUPPLY)"
proof (cases d)
  case (Finite v)
  then have "100 / 2 ^ 35 \<le> v" using assms by simp
  then have "21000000 + 1 / 2 ^ 29 < 21000000 + v" by simp
  then have "at_least (21000000 + 1 / 2 ^ 28) (fl (21000000 + v))"
    by (rule fl_above_cap)
  then show ?thesis
    using Finite by (cases "fl (21000000 + v)") (simp_all add: dgt_def MAX_SUPPLY_def)
next
  case PInf
  then show ?thesis by (simp add: dgt_def)
qed (use assms in simp_all)


lemma claim_with_fields [simp]:
  "improvement_percentage_d (claim_with i c f) = i"
  "consensus_score_d (claim_with i c f) = c"
  "f1_score_d (claim_with i c f) = f"
  "confirmations_d (claim_with i c f) = 3"
  by (simp_all add: claim_with_def)

lemma final_reward_nan: "final_reward_ieee h t NaN = NaN"
  by (simp add: final_reward_ieee_def c_log10_def)

lemma reward_uncapped_on_nan_supply:
  "calculate_mining_reward_ieee \<lparr>blockchain_height_d = h, total_supply_d = NaN\<rparr> t x
     = final_reward_ieee h t x"
  by (simp add: calculate_mining_reward_ieee_def dgt_def)

lemma example_claims_pass:
  "verify_ai_improvement_ieee nan_improvement_claim = 1"
  "verify_ai_improvement_ieee claim_90 = 1"
  "improvement_percentage_d nan_improvement_claim = NaN"
  "improvement_percentage_d claim_90 = Finite 90"
  by (simp_all add: verify_ai_improvement_ieee_def claim_with_def nan_improvement_claim_def
      claim_90_def)

subsection \<open>Runs\<close>

lemma mine_sequence_ieee_append:
  "mine_sequence_ieee s (xs @ ys) = mine_sequence_ieee (mine_sequence_ieee s xs) ys"
  by (induction xs arbitrary: s) (simp_all split: option.splits)

lemma mine_sequence_ieee_Suc:
  "mine_sequence_ieee s (replicate (Suc n) p)
     = (case mine_block_ieee (mine_sequence_ieee s (replicate n p)) p of
          None \<Rightarrow> mine_sequence_ieee s (replicate n p)
        | Some (reward, s') \<Rightarrow> s')"
proof -
  have "replicate (Suc n) p = replicate n p @ [p]"
    by (simp add: replicate_append_same)
  then show ?thesis
    by (simp only: mine_sequence_ieee_append) (simp split: option.splits)
qed

lemma unat_of_nat_small: "k < 4294967296 \<Longrightarrow> unat (of_nat k :: 32 word) = k"
  by (simp add: unat_of_nat)

lemma fl_even_hundreds:
  assumes "m \<le> 21000100" "0 < m"
  shows "fl (real m) = Finite (real m)"
proof -
  obtain e where e: "2 ^ e \<le> m" "m < 2 ^ Suc e"
    using ex_power_ivl1 [of 2 m] assms(2) by auto
  have "e \<le> 52"
  proof (rule ccontr)
    assume "\<not> e \<le> 52"
    then have "53 \<le> e" by simp
    then have "(2::nat) ^ 53 \<le> 2 ^ e" by (intro power_increasing) simp_all
    then show False using e(1) assms(1) by simp
  qed
  then show ?thesis using fl_nat [OF assms(2) e] by simp
qed

lemma first_era_step:
  assumes "m < 104999"
  shows "mine_block_ieee \<lparr>blockchain_height_d = of_nat (Suc m), total_supply_d = Finite (100 + 200 * real m)\<rparr> claim_90
     = Some (Finite 200, \<lparr>blockchain_height_d = of_nat (Suc (Suc m)), total_supply_d = Finite (100 + 200 * real (Suc m))\<rparr>)"
proof -
  define h :: "32 word" where "h = of_nat (Suc m)"
  define total :: real where "total = 100 + 200 * real m"
  have u: "unat h = Suc m" unfolding h_def by (rule unat_of_nat_small) (use assms in simp)
  have "final_reward_ieee h 0 (Finite 90) = Finite (200 / 2 ^ 0)"
    by (rule final_reward_90) (use u assms in simp_all)
  then have f: "final_reward_ieee h 0 (Finite 90) = Finite 200" by simp
  have "fl (real (300 + 200 * m)) = Finite (real (300 + 200 * m))"
    by (rule fl_even_hundreds) (use assms in simp_all)
  then have s: "fl (total + 200) = Finite (total + 200)" by (simp add: total_def)
  have le: "total + 200 \<le> 21000000" using assms by (simp add: total_def)
  have r: "calculate_mining_reward_ieee
     \<lparr>blockchain_height_d = h, total_supply_d = Finite total\<rparr> 0 (Finite 90) = Finite 200"
    using le by (simp add: calculate_mining_reward_ieee_def f dgt_def s MAX_SUPPLY_def)
  have "mine_block_ieee \<lparr>blockchain_height_d = h, total_supply_d = Finite total\<rparr> claim_90
     = Some (Finite 200, \<lparr>blockchain_height_d = h + 1, total_supply_d = Finite (total + 200)\<rparr>)"
    unfolding mine_block_ieee_def example_claims_pass Let_def r
    by (simp add: s)
  moreover have "h + 1 = of_nat (Suc (Suc m))" by (simp add: h_def)
  moreover have "total + 200 = 100 + 200 * real (Suc m)" by (simp add: total_def)
  ultimately show ?thesis unfolding h_def total_def by (simp only:)
qed

lemma first_era_run:
  "n \<le> 104999 \<Longrightarrow> mine_sequence_ieee genesis_ledger (replicate n claim_90)
     = \<lparr>blockchain_height_d = of_nat (Suc n), total_supply_d = Finite (100 + 200 * real n)\<rparr>"
proof (induction n)
  case 0
  show ?case by (simp add: genesis_ledger_def INITIAL_REWARD_def)
next
  case (Suc n)
  then have n: "n < 104999" by simp
  have ih: "mine_sequence_ieee genesis_ledger (replicate n claim_90)
     = \<lparr>blockchain_height_d = of_nat (Suc n), total_supply_d = Finite (100 + 200 * real n)\<rparr>"
    using Suc by simp
  show ?case
    unfolding mine_sequence_ieee_Suc ih first_era_step [OF n] by simp
qed

lemma cap_step:
  "mine_block_ieee \<lparr>blockchain_height_d = 105000, total_supply_d = Finite 20999900\<rparr> claim_90
     = Some (Finite 100, capped_ledger 105001)"
proof -
  have "final_reward_ieee 105000 0 (Finite 90) = Finite (200 / 2 ^ 0)"
    by (rule final_reward_90) simp_all
  then have f: "final_reward_ieee 105000 0 (Finite 90) = Finite 200" by simp
  have a: "fl 21000100 = Finite 21000100" by (rule fl_max_plus)
  have b: "fl 100 = Finite 100" using fl_nat [of 100 6] by simp
  have c: "fl 21000000 = Finite 21000000" using fl_nat [of 21000000 24] by simp
  have r: "calculate_mining_reward_ieee
     \<lparr>blockchain_height_d = 105000, total_supply_d = Finite 20999900\<rparr> 0 (Finite 90) = Finite 100"
    by (simp add: calculate_mining_reward_ieee_def f dgt_def dsub_def a b MAX_SUPPLY_def)
  show ?thesis
    unfolding mine_block_ieee_def example_claims_pass Let_def r
    by (simp add: c capped_ledger_def MAX_SUPPLY_def)
qed

lemma capped_step:
  assumes "unat h < 7770000"
  shows "mine_block_ieee (capped_ledger h) claim_90 = Some (Finite 0, capped_ledger (h + 1))"
proof -
  define k where "k = unat h div 210000"
  have k: "unat h div 210000 = k" "k \<le> 1000" "k \<le> 36"
    using assms by (simp_all add: k_def)
  have f: "final_reward_ieee h 0 (Finite 90) = Finite (200 / 2 ^ k)"
    using k(1,2) by (rule final_reward_90)
  have "(200::real) / 2 ^ 36 \<le> 200 / 2 ^ k"
    using k(3) by (intro divide_left_mono power_increasing) simp_all
  moreover have "(100::real) / 2 ^ 35 \<le> 200 / 2 ^ 36" by simp
  ultimately have "at_least (100 / 2 ^ 35) (Finite (200 / 2 ^ k))" by simp
  then have g: "dgt (dadd (Finite MAX_SUPPLY) (Finite (200 / 2 ^ k))) (Finite MAX_SUPPLY)"
    by (rule cap_fires)
  have c: "fl 21000000 = Finite 21000000" using fl_nat [of 21000000 24] by simp
  have r: "calculate_mining_reward_ieee (capped_ledger h) 0 (Finite 90) = Finite 0"
    using g by (simp add: calculate_mining_reward_ieee_def capped_ledger_def f dsub_def fl_zero)
  show ?thesis
    unfolding mine_block_ieee_def example_claims_pass Let_def r
    by (simp add: capped_ledger_def c MAX_SUPPLY_def)
qed

lemma capped_run:
  "105000 \<le> n \<Longrightarrow> n < 7770000 \<Longrightarrow>
     mine_sequence_ieee genesis_ledger (replicate n claim_90) = capped_ledger (of_nat (Suc n))"
proof (induction n)
  case 0
  then show ?case by simp
next
  case (Suc n)
  show ?case
  proof (cases "n = 104999")
    case True
    have "mine_sequence_ieee genesis_ledger (replicate n claim_90)
       = \<lparr>blockchain_height_d = 105000, total_supply_d = Finite 20999900\<rparr>"
      unfolding True using first_era_run [of 104999] by simp
    then show ?thesis
      unfolding mine_sequence_ieee_Suc using cap_step True by simp
  next
    case False
    then have n: "105000 \<le> n" "n < 7770000" using Suc.prems by simp_all
    define h :: "32 word" where "h = of_nat (Suc n)"
    have ih: "mine_sequence_ieee genesis_ledger (replicate n claim_90) = capped_ledger h"
      unfolding h_def using Suc.IH n by simp
    have "unat h = Suc n"
      unfolding h_def by (rule unat_of_nat_small) (use Suc.prems(2) in simp)
    then have u: "unat h < 7770000"
      using Suc.prems(2) by (simp only:)
    have "h + 1 = of_nat (Suc (Suc n))" by (simp add: h_def)
    then show ?thesis
      unfolding mine_sequence_ieee_Suc ih capped_step [OF u] by simp
  qed
qed

subsection \<open>Improvement verification gate\<close>

lemma gate_ieee_tests:
  "verify_ai_improvement_ieee v = 1 \<longleftrightarrow>
     \<not> dlt (improvement_percentage_d v) (Finite 1.0) \<and> 3 \<le> confirmations_d v
     \<and> \<not> dlt (consensus_score_d v) (Finite 0.75) \<and> \<not> dlt (f1_score_d v) (Finite 0.5)"
  by (auto simp add: verify_ai_improvement_ieee_def not_le)

lemma not_dlt: "x \<noteq> NaN \<Longrightarrow> y \<noteq> NaN \<Longrightarrow> \<not> dlt x y \<longleftrightarrow> dle y x"
  by (cases x; cases y) auto

lemma gate_ieee_numbers:
  assumes "improvement_percentage_d v \<noteq> NaN" "consensus_score_d v \<noteq> NaN" "f1_score_d v \<noteq> NaN"
  shows "verify_ai_improvement_ieee v = 1 \<longleftrightarrow>
     dle (Finite 1.0) (improvement_percentage_d v) \<and> 3 \<le> confirmations_d v
     \<and> dle (Finite 0.75) (consensus_score_d v) \<and> dle (Finite 0.5) (f1_score_d v)"
  unfolding gate_ieee_tests using assms by (simp add: not_dlt)

lemma gate_ieee_two_confirmations:
  "confirmations_d v = 2 \<Longrightarrow> verify_ai_improvement_ieee v = 0"
  by (simp add: verify_ai_improvement_ieee_def)

text \<open>
  C1. The gate admits claims for which not all four thresholds hold. Each test of the
  code is \<^verbatim>\<open>x < c\<close>, false when \<open>x\<close> is NaN, so a NaN passes it although \<open>x \<ge> c\<close> is
  false as well. Each of the three claims below has 3 confirmations, one field NaN
  (the improvement, the consensus score, the F1 score) and the others above their
  thresholds: the gate admits each of them, and the threshold of the NaN field does not
  hold.
\<close>

theorem gate_admits_nan:
  "verify_ai_improvement_ieee nan_improvement_claim = 1
   \<and> \<not> dle (Finite 1.0) (improvement_percentage_d nan_improvement_claim)
   \<and> verify_ai_improvement_ieee nan_score_claim = 1
   \<and> \<not> dle (Finite 0.75) (consensus_score_d nan_score_claim)
   \<and> verify_ai_improvement_ieee nan_f1_claim = 1
   \<and> \<not> dle (Finite 0.5) (f1_score_d nan_f1_claim)"
  by (simp add: verify_ai_improvement_ieee_def claim_with_def nan_improvement_claim_def
      nan_score_claim_def nan_f1_claim_def)

subsection \<open>Reward at the cap\<close>

text \<open>
  C2. With the supply cap exhausted the computed reward is not always 0. Mining 7769999
  blocks from the genesis state, each for a claim with improvement 90, leads to height
  7770000 (37 halvings) with the supply equal to \<open>MAX_SUPPLY\<close>. There the reward for
  the same claim is \<open>100 / 2 ^ 36\<close>, about 1.455e-9, a positive number: it is less than
  half the spacing of the doubles around 21000000, so the sum
  \<^verbatim>\<open>total_supply + final_reward\<close> rounds to 21000000, the test
  \<^verbatim>\<open>total_supply + final_reward > MAX_SUPPLY\<close> is false and the reward is returned
  uncut. The block that \<^verbatim>\<open>mine_block\<close> appends embeds that reward while the supply
  stays at the cap; the exact sum of supply and reward is above the cap.
\<close>

theorem reward_at_cap_not_zero:
  "mine_sequence_ieee genesis_ledger (replicate 7769999 claim_90) = capped_ledger 7770000
   \<and> total_supply_d (capped_ledger 7770000) = Finite MAX_SUPPLY
   \<and> calculate_mining_reward_ieee (capped_ledger 7770000) 0 (Finite 90) = Finite (100 / 2 ^ 36)
   \<and> dlt (Finite 0) (Finite (100 / 2 ^ 36))
   \<and> dadd (total_supply_d (capped_ledger 7770000)) (Finite (100 / 2 ^ 36)) = Finite MAX_SUPPLY
   \<and> MAX_SUPPLY < MAX_SUPPLY + 100 / 2 ^ 36
   \<and> mine_block_ieee (capped_ledger 7770000) claim_90
       = Some (Finite (100 / 2 ^ 36), capped_ledger 7770001)"
proof -
  define r :: real where "r = 100 / 2 ^ 36"
  have "final_reward_ieee 7770000 0 (Finite 90) = Finite (200 / 2 ^ 37)"
    by (rule final_reward_90) simp_all
  then have f: "final_reward_ieee 7770000 0 (Finite 90) = Finite r"
    by (simp add: r_def)
  have "fl (21000000 + r) = Finite 21000000"
    by (rule fl_absorb) (simp_all add: r_def)
  then have a: "fl (MAX_SUPPLY + r) = Finite MAX_SUPPLY"
    by (simp add: MAX_SUPPLY_def)
  have p: "0 < r" by (simp add: r_def)
  have 1: "mine_sequence_ieee genesis_ledger (replicate 7769999 claim_90) = capped_ledger 7770000"
    using capped_run [of 7769999] by simp
  have 2: "total_supply_d (capped_ledger 7770000) = Finite MAX_SUPPLY"
    by (simp add: capped_ledger_def)
  have 3: "calculate_mining_reward_ieee (capped_ledger 7770000) 0 (Finite 90) = Finite r"
    by (simp add: calculate_mining_reward_ieee_def capped_ledger_def f a dgt_def)
  have 4: "dlt (Finite 0) (Finite r)" using p by simp
  have 5: "dadd (total_supply_d (capped_ledger 7770000)) (Finite r) = Finite MAX_SUPPLY"
    by (simp add: capped_ledger_def a)
  have 6: "MAX_SUPPLY < MAX_SUPPLY + r" using p by simp
  have 7: "mine_block_ieee (capped_ledger 7770000) claim_90
       = Some (Finite r, capped_ledger 7770001)"
    unfolding mine_block_ieee_def example_claims_pass Let_def 3
    by (simp add: capped_ledger_def a)
  have "mine_sequence_ieee genesis_ledger (replicate 7769999 claim_90) = capped_ledger 7770000
   \<and> total_supply_d (capped_ledger 7770000) = Finite MAX_SUPPLY
   \<and> calculate_mining_reward_ieee (capped_ledger 7770000) 0 (Finite 90) = Finite r
   \<and> dlt (Finite 0) (Finite r)
   \<and> dadd (total_supply_d (capped_ledger 7770000)) (Finite r) = Finite MAX_SUPPLY
   \<and> MAX_SUPPLY < MAX_SUPPLY + r
   \<and> mine_block_ieee (capped_ledger 7770000) claim_90 = Some (Finite r, capped_ledger 7770001)"
    using 1 2 3 4 5 6 7 by blast
  then show ?thesis unfolding r_def .
qed

subsection \<open>Supply cap\<close>

text \<open>
  C3. A block can embed a reward that breaks the bound, and the supply does not stay
  at or below the cap. A claim whose improvement is NaN passes the gate (see C1); the
  reward computed from it is NaN, the test \<^verbatim>\<open>total_supply + final_reward > MAX_SUPPLY\<close>
  is false, so the block mined on the genesis state embeds the reward NaN, for which
  \<open>previous supply + reward \<le> MAX_SUPPLY\<close> does not hold, and the supply becomes NaN.
  From then on the cap test is false at every height, for every type and improvement:
  each reward is paid uncut (200 coins for the next claim with improvement 90) and the
  supply stays NaN, which is not at most \<open>MAX_SUPPLY\<close>.
\<close>

theorem nan_claim_defeats_cap:
  "mine_block_ieee genesis_ledger nan_improvement_claim
     = Some (NaN, \<lparr>blockchain_height_d = 2, total_supply_d = NaN\<rparr>)
   \<and> \<not> dle (dadd (total_supply_d genesis_ledger) NaN) (Finite MAX_SUPPLY)
   \<and> (\<forall>h t x. calculate_mining_reward_ieee \<lparr>blockchain_height_d = h, total_supply_d = NaN\<rparr> t x
                = final_reward_ieee h t x)
   \<and> mine_block_ieee \<lparr>blockchain_height_d = 2, total_supply_d = NaN\<rparr> claim_90
     = Some (Finite 200, \<lparr>blockchain_height_d = 3, total_supply_d = NaN\<rparr>)
   \<and> mine_sequence_ieee genesis_ledger [nan_improvement_claim, claim_90]
     = \<lparr>blockchain_height_d = 3, total_supply_d = NaN\<rparr>
   \<and> \<not> dle (total_supply_d (mine_sequence_ieee genesis_ledger [nan_improvement_claim, claim_90]))
          (Finite MAX_SUPPLY)"
proof -
  have r1: "calculate_mining_reward_ieee genesis_ledger 0 NaN = NaN"
    by (simp add: calculate_mining_reward_ieee_def final_reward_nan dgt_def)
  have "final_reward_ieee 2 0 (Finite 90) = Finite (200 / 2 ^ 0)"
    by (rule final_reward_90) simp_all
  then have f: "final_reward_ieee 2 0 (Finite 90) = Finite 200" by simp
  have 1: "mine_block_ieee genesis_ledger nan_improvement_claim
     = Some (NaN, \<lparr>blockchain_height_d = 2, total_supply_d = NaN\<rparr>)"
    unfolding mine_block_ieee_def example_claims_pass Let_def r1
    by (simp add: genesis_ledger_def)
  have 2: "\<not> dle (dadd (total_supply_d genesis_ledger) NaN) (Finite MAX_SUPPLY)"
    by simp
  have 3: "mine_block_ieee \<lparr>blockchain_height_d = 2, total_supply_d = NaN\<rparr> claim_90
     = Some (Finite 200, \<lparr>blockchain_height_d = 3, total_supply_d = NaN\<rparr>)"
    unfolding mine_block_ieee_def example_claims_pass Let_def reward_uncapped_on_nan_supply
    by (simp add: f)
  have 4: "mine_sequence_ieee genesis_ledger [nan_improvement_claim, claim_90]
     = \<lparr>blockchain_height_d = 3, total_supply_d = NaN\<rparr>"
    by (simp add: 1 3)
  have 5: "\<not> dle (total_supply_d (mine_sequence_ieee genesis_ledger [nan_improvement_claim, claim_90]))
          (Finite MAX_SUPPLY)"
    unfolding 4 by simp
  show ?thesis
    using 1 2 3 4 5 reward_uncapped_on_nan_supply by blast
qed

subsection \<open>Halving\<close>




end
